theory Spec2Isabelle
  imports Main "HOL-Library.Word"
begin

section \<open>Package validator (src/validator/id.go)\<close>

subsection \<open>Errors and results\<close>

text \<open>
  The five sentinel errors of the package. A Go \<open>error\<close> result is an
  \<open>error option\<close>: \<open>None\<close> is \<open>nil\<close>.
\<close>

datatype error =
    ErrFormatInvalid
  | ErrAddressInvalid
  | ErrBirthFormatInvalid
  | ErrBirthRangeInvalid
  | ErrSumInvalid

text \<open>
  A slice expression or an index out of range is a run-time panic in Go; the
  functions that slice or index return an \<open>outcome\<close>.
\<close>

datatype 'a outcome = Returns 'a | Panics

record IDCard =
  Number :: string

subsection \<open>The format expression\<close>

text \<open>
  The pattern of \<open>reg\<close> uses digits, literal characters, concatenation,
  alternation and the option \<open>?\<close>. Strings are byte lists; \<open>\d\<close> is an
  ASCII digit.
\<close>

datatype rexp =
    Digit
  | Lit char
  | Cat rexp rexp
  | Alt rexp rexp
  | Opt rexp
  | Eps

definition digit_val :: "char \<Rightarrow> nat option" where
  "digit_val c =
     (let n = (of_char c :: nat) in if 48 \<le> n \<and> n \<le> 57 then Some (n - 48) else None)"

definition is_digit :: "char \<Rightarrow> bool" where
  "is_digit c = (digit_val c \<noteq> None)"

text \<open>\<open>rmatch r s\<close> lists what is left of \<open>s\<close> after each way of matching \<open>r\<close> at its start.\<close>

fun rmatch :: "rexp \<Rightarrow> string \<Rightarrow> string list" where
  "rmatch Digit s = (case s of [] \<Rightarrow> [] | c # cs \<Rightarrow> if is_digit c then [cs] else [])"
| "rmatch (Lit a) s = (case s of [] \<Rightarrow> [] | c # cs \<Rightarrow> if c = a then [cs] else [])"
| "rmatch (Cat r1 r2) s = concat (map (rmatch r2) (rmatch r1 s))"
| "rmatch (Alt r1 r2) s = rmatch r1 s @ rmatch r2 s"
| "rmatch (Opt r) s = rmatch r s @ [s]"
| "rmatch Eps s = [s]"

text \<open>The pattern is anchored by \<open>^\<close> and \<open>$\<close>: the whole string has to be consumed.\<close>

definition MatchString :: "rexp \<Rightarrow> string \<Rightarrow> bool" where
  "MatchString r s = ([] \<in> set (rmatch r s))"

text \<open>A literal word, and the counted repetition \<open>r{n}\<close>.\<close>

fun lits :: "string \<Rightarrow> rexp" where
  "lits [] = Eps"
| "lits (c # cs) = Cat (Lit c) (lits cs)"

fun Times :: "nat \<Rightarrow> rexp \<Rightarrow> rexp" where
  "Times 0 r = Eps"
| "Times (Suc n) r = Cat r (Times n r)"

text \<open>
  \<^verbatim>\<open>^(\d{6})(18|19|20)?(\d{2})(0\d|10|11|12)([012]\d|3[01])(\d{3})(\d|X)?$\<close>
\<close>

definition reg :: rexp where
  "reg =
     Cat (Times 6 Digit)
    (Cat (Opt (Alt (lits ''18'') (Alt (lits ''19'') (lits ''20''))))
    (Cat (Times 2 Digit)
    (Cat (Alt (Cat (Lit CHR ''0'') Digit) (Alt (lits ''10'') (Alt (lits ''11'') (lits ''12''))))
    (Cat (Alt (Cat (Alt (Lit CHR ''0'') (Alt (Lit CHR ''1'') (Lit CHR ''2''))) Digit)
              (Cat (Lit CHR ''3'') (Alt (Lit CHR ''0'') (Lit CHR ''1''))))
    (Cat (Times 3 Digit)
         (Opt (Alt Digit (Lit CHR ''X''))))))))"

subsection \<open>The area table\<close>

text \<open>
  The keys are as written in the source, the entry for Shanghai with its
  leading space. The values are the UTF-8 bytes of the province names; the
  code only asks whether a key is present.
\<close>

definition area_entries :: "(string \<times> string) list" where
  "area_entries =
    [(''11'', [CHR 0xE5, CHR 0x8C, CHR 0x97, CHR 0xE4, CHR 0xBA, CHR 0xAC]),
     (''12'', [CHR 0xE5, CHR 0xA4, CHR 0xA9, CHR 0xE6, CHR 0xB4, CHR 0xA5]),
     (''13'', [CHR 0xE6, CHR 0xB2, CHR 0xB3, CHR 0xE5, CHR 0x8C, CHR 0x97]),
     (''14'', [CHR 0xE5, CHR 0xB1, CHR 0xB1, CHR 0xE8, CHR 0xA5, CHR 0xBF]),
     (''15'', [CHR 0xE5, CHR 0x86, CHR 0x85, CHR 0xE8, CHR 0x92, CHR 0x99]),
     (''21'', [CHR 0xE8, CHR 0xBE, CHR 0xBD, CHR 0xE5, CHR 0xAE, CHR 0x81]),
     (''22'', [CHR 0xE5, CHR 0x90, CHR 0x89, CHR 0xE6, CHR 0x9E, CHR 0x97]),
     (''23'', [CHR 0xE9, CHR 0xBB, CHR 0x91, CHR 0xE9, CHR 0xBE, CHR 0x99]),
     ('' 31'', [CHR 0xE4, CHR 0xB8, CHR 0x8A, CHR 0xE6, CHR 0xB5, CHR 0xB7]),
     (''32'', [CHR 0xE6, CHR 0xB1, CHR 0x9F, CHR 0xE8, CHR 0x8B, CHR 0x8F]),
     (''33'', [CHR 0xE6, CHR 0xB5, CHR 0x99, CHR 0xE6, CHR 0xB1, CHR 0x9F]),
     (''34'', [CHR 0xE5, CHR 0xAE, CHR 0x89, CHR 0xE5, CHR 0xBE, CHR 0xBD]),
     (''35'', [CHR 0xE7, CHR 0xA6, CHR 0x8F, CHR 0xE5, CHR 0xBB, CHR 0xBA]),
     (''36'', [CHR 0xE6, CHR 0xB1, CHR 0x9F, CHR 0xE8, CHR 0xA5, CHR 0xBF]),
     (''37'', [CHR 0xE5, CHR 0xB1, CHR 0xB1, CHR 0xE4, CHR 0xB8, CHR 0x9C]),
     (''41'', [CHR 0xE6, CHR 0xB2, CHR 0xB3, CHR 0xE5, CHR 0x8D, CHR 0x97]),
     (''42'', [CHR 0xE6, CHR 0xB9, CHR 0x96, CHR 0xE5, CHR 0x8C, CHR 0x97]),
     (''43'', [CHR 0xE6, CHR 0xB9, CHR 0x96, CHR 0xE5, CHR 0x8D, CHR 0x97]),
     (''44'', [CHR 0xE5, CHR 0xB9, CHR 0xBF, CHR 0xE4, CHR 0xB8, CHR 0x9C]),
     (''45'', [CHR 0xE5, CHR 0xB9, CHR 0xBF, CHR 0xE8, CHR 0xA5, CHR 0xBF]),
     (''46'', [CHR 0xE6, CHR 0xB5, CHR 0xB7, CHR 0xE5, CHR 0x8D, CHR 0x97]),
     (''50'', [CHR 0xE9, CHR 0x87, CHR 0x8D, CHR 0xE5, CHR 0xBA, CHR 0x86]),
     (''51'', [CHR 0xE5, CHR 0x9B, CHR 0x9B, CHR 0xE5, CHR 0xB7, CHR 0x9D]),
     (''52'', [CHR 0xE8, CHR 0xB4, CHR 0xB5, CHR 0xE5, CHR 0xB7, CHR 0x9E]),
     (''53'', [CHR 0xE4, CHR 0xBA, CHR 0x91, CHR 0xE5, CHR 0x8D, CHR 0x97]),
     (''54'', [CHR 0xE8, CHR 0xA5, CHR 0xBF, CHR 0xE8, CHR 0x97, CHR 0x8F]),
     (''61'', [CHR 0xE9, CHR 0x99, CHR 0x95, CHR 0xE8, CHR 0xA5, CHR 0xBF]),
     (''62'', [CHR 0xE7, CHR 0x94, CHR 0x98, CHR 0xE8, CHR 0x82, CHR 0x83]),
     (''63'', [CHR 0xE9, CHR 0x9D, CHR 0x92, CHR 0xE6, CHR 0xB5, CHR 0xB7]),
     (''64'', [CHR 0xE5, CHR 0xAE, CHR 0x81, CHR 0xE5, CHR 0xA4, CHR 0x8F]),
     (''65'', [CHR 0xE6, CHR 0x96, CHR 0xB0, CHR 0xE7, CHR 0x96, CHR 0x86]),
     (''71'', [CHR 0xE5, CHR 0x8F, CHR 0xB0, CHR 0xE6, CHR 0xB9, CHR 0xBE]),
     (''81'', [CHR 0xE9, CHR 0xA6, CHR 0x99, CHR 0xE6, CHR 0xB8, CHR 0xAF]),
     (''82'', [CHR 0xE6, CHR 0xBE, CHR 0xB3, CHR 0xE9, CHR 0x97, CHR 0xA8]),
     (''91'', [CHR 0xE5, CHR 0x9B, CHR 0xBD, CHR 0xE5, CHR 0xA4, CHR 0x96])]"

definition area :: "string \<rightharpoonup> string" where
  "area = map_of area_entries"

subsection \<open>Dates\<close>

text \<open>
  A \<open>time.Time\<close> is the instant it denotes, in seconds since the Unix epoch;
  \<open>After\<close> and \<open>Before\<close> compare instants. \<open>time_Date\<close> follows \<open>time.Date\<close>
  for a midnight: the month is normalised into the year, the day is added as
  an offset, and the zone's offset (seconds east of UTC) is subtracted.
\<close>

type_synonym time = int

definition isLeap :: "int \<Rightarrow> bool" where
  "isLeap year = (year mod 4 = 0 \<and> (year mod 100 \<noteq> 0 \<or> year mod 400 = 0))"

definition daysBefore :: "int list" where
  "daysBefore = [0, 31, 59, 90, 120, 151, 181, 212, 243, 273, 304, 334, 365]"

text \<open>Days from 1 January 1970 to 1 January of \<open>year\<close>.\<close>

definition daysSinceEpoch :: "int \<Rightarrow> int" where
  "daysSinceEpoch year =
     (let y = year - 1 in 365 * y + y div 4 - y div 100 + y div 400) - 719162"

definition time_Date :: "int \<Rightarrow> int \<Rightarrow> int \<Rightarrow> int \<Rightarrow> time" where
  "time_Date year month day offset =
     (let m = month - 1;
          year' = year + m div 12;
          m' = m mod 12;
          d = daysSinceEpoch year' + daysBefore ! nat m'
              + (if isLeap year' \<and> 2 \<le> m' then 1 else 0)
              + (day - 1)
      in d * 86400 - offset)"

definition daysIn :: "int \<Rightarrow> int \<Rightarrow> int" where
  "daysIn month year =
     (if month = 2 \<and> isLeap year then 29
      else daysBefore ! nat month - daysBefore ! nat (month - 1))"

definition After :: "time \<Rightarrow> time \<Rightarrow> bool" where
  "After t u = (u < t)"

definition Before :: "time \<Rightarrow> time \<Rightarrow> bool" where
  "Before t u = (t < u)"

fun atoi :: "string \<Rightarrow> int option" where
  "atoi [] = Some 0"
| "atoi (c # cs) =
     (case digit_val (last (c # cs)) of
        None \<Rightarrow> None
      | Some d \<Rightarrow> (case atoi (butlast (c # cs)) of
                     None \<Rightarrow> None
                   | Some n \<Rightarrow> Some (10 * n + int d)))"

text \<open>
  \<open>time.Parse\<close> with the layout \<open>20060102\<close>: four digits of year, two of
  month, two of day and nothing else; the month has to be 1 to 12 and the day
  a day of that month. The result is the midnight in UTC.
\<close>

definition time_Parse_20060102 :: "string \<Rightarrow> time option" where
  "time_Parse_20060102 v =
     (if length v \<noteq> 8 then None
      else case (atoi (take 4 v), atoi (take 2 (drop 4 v)), atoi (drop 6 v)) of
        (Some year, Some month, Some day) \<Rightarrow>
          if month \<le> 0 \<or> 12 < month then None
          else if day < 1 \<or> daysIn month year < day then None
          else Some (time_Date year month day 0)
      | _ \<Rightarrow> None)"

text \<open>
  \<open>min_date\<close> is \<open>time.Date(1890, 0, 0, 0, 0, 0, 0, time.Local)\<close>; the offset
  of the local zone is a parameter. \<open>max_date\<close> is \<open>time.Now()\<close> when the
  package is initialised; it is a parameter of the functions that read it.
\<close>

definition min_date :: "int \<Rightarrow> time" where
  "min_date local_offset = time_Date 1890 0 0 local_offset"

subsection \<open>The checks\<close>

definition weight :: "int list" where
  "weight = [7, 9, 10, 5, 8, 4, 2, 1, 6, 3, 7, 9, 10, 5, 8, 4, 2]"

definition code :: "string" where
  "code = ''10X98765432''"

definition validateReg :: "IDCard \<Rightarrow> error option" where
  "validateReg i = (if MatchString reg (Number i) then None else Some ErrFormatInvalid)"

definition validateArea :: "IDCard \<Rightarrow> error option outcome" where
  "validateArea i =
     (if length (Number i) < 2 then Panics
      else case area (take 2 (Number i)) of
             Some _ \<Rightarrow> Returns None
           | None \<Rightarrow> Returns (Some ErrAddressInvalid))"

definition validateBirth :: "time \<Rightarrow> int \<Rightarrow> IDCard \<Rightarrow> error option outcome" where
  "validateBirth max_date local_offset i =
     (if length (Number i) < 14 then Panics
      else let birth = take 8 (drop 6 (Number i)) in
        case time_Parse_20060102 birth of
          None \<Rightarrow> Returns (Some ErrBirthFormatInvalid)
        | Some date \<Rightarrow>
            if After date max_date \<and> Before date (min_date local_offset)
            then Returns (Some ErrBirthRangeInvalid)
            else Returns None)"

text \<open>
  The loop of \<open>validateSum\<close> over all bytes but the last: \<open>ParseFloat\<close> of a
  one-character string is the digit, or 0 with an ignored error; \<open>weight[i]\<close>
  panics from index 17 on. The loop is over bytes: \<open>Validate\<close> calls
  \<open>validateSum\<close> only on a number that matched \<open>reg\<close>, which is ASCII, so
  that bytes and runes are the same.
\<close>

fun sum_loop :: "nat \<Rightarrow> string \<Rightarrow> int \<Rightarrow> int outcome" where
  "sum_loop i [] acc = Returns acc"
| "sum_loop i (char # rest) acc =
     (if i < length weight
      then sum_loop (Suc i) rest
             (acc + (case digit_val char of Some d \<Rightarrow> int d | None \<Rightarrow> 0) * weight ! i)
      else Panics)"

definition validateSum :: "IDCard \<Rightarrow> error option outcome" where
  "validateSum i =
     (if Number i = [] then Panics
      else case sum_loop 0 (butlast (Number i)) 0 of
             Panics \<Rightarrow> Panics
           | Returns acc \<Rightarrow>
               if code ! nat (acc mod 11) = last (Number i) then Returns None
               else Returns (Some ErrSumInvalid))"

definition Validate :: "time \<Rightarrow> int \<Rightarrow> IDCard \<Rightarrow> (bool \<times> error option) outcome" where
  "Validate max_date local_offset i =
     (case validateReg i of
        Some err \<Rightarrow> Returns (False, Some err)
      | None \<Rightarrow>
     (case validateArea i of
        Panics \<Rightarrow> Panics
      | Returns (Some err) \<Rightarrow> Returns (False, Some err)
      | Returns None \<Rightarrow>
     (case validateBirth max_date local_offset i of
        Panics \<Rightarrow> Panics
      | Returns (Some err) \<Rightarrow> Returns (False, Some err)
      | Returns None \<Rightarrow>
     (case validateSum i of
        Panics \<Rightarrow> Panics
      | Returns (Some err) \<Rightarrow> Returns (False, Some err)
      | Returns None \<Rightarrow> Returns (True, None)))))"

section \<open>Package log (src/log/log.go)\<close>

subsection \<open>Levels\<close>

text \<open>
  \<open>type Level uint8\<close> with the constants of the \<open>iota\<close> block, in the
  order of the source.
\<close>

type_synonym Level = "8 word"

definition PanicLevel :: Level where "PanicLevel = 0"
definition FatalLevel :: Level where "FatalLevel = 1"
definition ErrorLevel :: Level where "ErrorLevel = 2"
definition WarnLevel :: Level where "WarnLevel = 3"
definition InfoLevel :: Level where "InfoLevel = 4"
definition DebugLevel :: Level where "DebugLevel = 5"
definition TraceLevel :: Level where "TraceLevel = 6"

record Config =
  File :: string
  Level :: string

subsection \<open>Values and their text\<close>

text \<open>
  The \<open>interface{}\<close> arguments of the calls: a string, an integer, or an
  error with its message.
\<close>

datatype val = VString string | VInt int | VError string

text \<open>
  What goes wrong in a call: a nil or dangling pointer is dereferenced, or a
  format uses a construct of \<open>fmt\<close> that is not modelled here.
\<close>

datatype fault = NilPointer | Unmodelled

function digits :: "nat \<Rightarrow> string" where
  "digits n =
     (if n < 10 then [char_of (48 + n)]
      else digits (n div 10) @ [char_of (48 + n mod 10)])"
  by pat_completeness auto
termination
  by (relation "measure id") auto

declare digits.simps [simp del]

definition itoa :: "int \<Rightarrow> string" where
  "itoa i = (if i < 0 then CHR ''-'' # digits (nat (- i)) else digits (nat i))"

text \<open>The default format \<open>%v\<close> of a value.\<close>

fun printArg_v :: "val \<Rightarrow> string" where
  "printArg_v (VString s) = s"
| "printArg_v (VInt n) = itoa n"
| "printArg_v (VError m) = m"

fun isString :: "val \<Rightarrow> bool" where
  "isString (VString _) = True"
| "isString _ = False"

text \<open>
  \<open>fmt.Sprint\<close> (Go standard library): the operands in their default
  format; a space is added between two operands when neither is a string.
  \<open>doPrint\<close> carries the operand's index being zero and \<open>prevString\<close>.
\<close>

fun doPrint :: "bool \<Rightarrow> bool \<Rightarrow> val list \<Rightarrow> string" where
  "doPrint first prevString [] = []"
| "doPrint first prevString (arg # rest) =
     (if \<not> first \<and> \<not> isString arg \<and> \<not> prevString then '' '' else [])
     @ printArg_v arg @ doPrint False (isString arg) rest"

definition fmt_Sprint :: "val list \<Rightarrow> string" where
  "fmt_Sprint a = doPrint True False a"

text \<open>
  \<open>fmt.Sprintln\<close>: a space between all operands and a newline at the end.
\<close>

fun doPrintln :: "bool \<Rightarrow> val list \<Rightarrow> string" where
  "doPrintln first [] = [CHR 0x0A]"
| "doPrintln first (arg # rest) =
     (if \<not> first then '' '' else []) @ printArg_v arg @ doPrintln False rest"

definition fmt_Sprintln :: "val list \<Rightarrow> string" where
  "fmt_Sprintln a = doPrintln True a"

text \<open>
  \<open>fmt.Sprintf\<close>, for the verbs \<open>%v\<close>, \<open>%d\<close> of an integer, \<open>%s\<close> of a
  string or an error, and \<open>%%\<close>, without flags, width or precision and with
  as many operands as verbs. Every other format is \<open>Unmodelled\<close>.
\<close>

fun printArg :: "val \<Rightarrow> char \<Rightarrow> string option" where
  "printArg arg verb =
     (if verb = CHR ''v'' then Some (printArg_v arg)
      else if verb = CHR ''d'' then (case arg of VInt n \<Rightarrow> Some (itoa n) | _ \<Rightarrow> None)
      else if verb = CHR ''s'' then
        (case arg of VString s \<Rightarrow> Some s | VError m \<Rightarrow> Some m | _ \<Rightarrow> None)
      else None)"

definition prepend :: "string \<Rightarrow> fault + string \<Rightarrow> fault + string" where
  "prepend s r = (case r of Inl f \<Rightarrow> Inl f | Inr t \<Rightarrow> Inr (s @ t))"

fun fmt_Sprintf :: "string \<Rightarrow> val list \<Rightarrow> fault + string" where
  "fmt_Sprintf [] a = (if a = [] then Inr [] else Inl Unmodelled)"
| "fmt_Sprintf [c] a =
     (if c = CHR ''%'' then Inl Unmodelled else prepend [c] (fmt_Sprintf [] a))"
| "fmt_Sprintf (c # verb # format) a =
     (if c \<noteq> CHR ''%'' then prepend [c] (fmt_Sprintf (verb # format) a)
      else if verb = CHR ''%'' then prepend ''%'' (fmt_Sprintf format a)
      else case a of
        [] \<Rightarrow> Inl Unmodelled
      | arg # rest \<Rightarrow>
          (case printArg arg verb of
             None \<Rightarrow> Inl Unmodelled
           | Some s \<Rightarrow> prepend s (fmt_Sprintf format rest)))"

subsection \<open>The engine and the sink\<close>

text \<open>
  The engine (\<open>github.com/sirupsen/logrus\<close>) and the rotating sink
  (\<open>github.com/natefinch/lumberjack\<close>) are used by the package and are not
  part of the repository. The engine's levels have the numbers of the
  facade's levels, as a \<open>uint32\<close>.
\<close>

type_synonym logrus_Level = "32 word"

definition logrus_PanicLevel :: logrus_Level where "logrus_PanicLevel = 0"
definition logrus_FatalLevel :: logrus_Level where "logrus_FatalLevel = 1"
definition logrus_ErrorLevel :: logrus_Level where "logrus_ErrorLevel = 2"
definition logrus_WarnLevel :: logrus_Level where "logrus_WarnLevel = 3"
definition logrus_InfoLevel :: logrus_Level where "logrus_InfoLevel = 4"
definition logrus_DebugLevel :: logrus_Level where "logrus_DebugLevel = 5"
definition logrus_TraceLevel :: logrus_Level where "logrus_TraceLevel = 6"

record lumberjack_Logger =
  Filename :: string
  MaxSize :: int
  MaxBackups :: int
  MaxAge :: int
  Compress :: bool
  LocalTime :: bool

datatype Writer =
    Stdout
  | Stderr
  | Lumberjack lumberjack_Logger
  | MultiWriter "Writer list"
  | OtherWriter nat

text \<open>
  A \<open>*logrus.Logger\<close> and a \<open>*logrus.Entry\<close> are addresses into the two
  heaps of the \<open>world\<close>; an object is allocated at the end of its heap. A
  written line records where it went, its level, its message and its fields.
\<close>

record logrus_Logger =
  Logger_Out :: Writer
  Logger_Level :: logrus_Level

record logrus_Entry =
  Logger :: nat
  Data :: "string \<rightharpoonup> val"

record written_line =
  line_out :: Writer
  line_level :: logrus_Level
  line_msg :: string
  line_fields :: "string \<rightharpoonup> val"

record world =
  loggers :: "logrus_Logger list"
  entries :: "logrus_Entry list"
  written :: "written_line list"

definition deref_Entry :: "world \<Rightarrow> nat \<Rightarrow> fault + logrus_Entry" where
  "deref_Entry w e = (if e < length (entries w) then Inr (entries w ! e) else Inl NilPointer)"

definition deref_Logger :: "world \<Rightarrow> nat \<Rightarrow> fault + logrus_Logger" where
  "deref_Logger w g = (if g < length (loggers w) then Inr (loggers w ! g) else Inl NilPointer)"

text \<open>
  Modelled from the spec: \<open>logrus.New\<close> and \<open>logrus.NewEntry\<close> (section 1,
  create entry; section 4.4, the default level is Info and the output the
  engine's built-in default). A new entry is bound to the logger it is given
  and has no fields. The built-in output is taken to be the standard error
  stream; no property below depends on which stream it is.
\<close>

definition logrus_New :: "world \<Rightarrow> nat \<times> world" where
  "logrus_New w =
     (length (loggers w),
      w\<lparr>loggers := loggers w @ [\<lparr>Logger_Out = Stderr, Logger_Level = logrus_InfoLevel\<rparr>]\<rparr>)"

definition logrus_NewEntry :: "nat \<Rightarrow> world \<Rightarrow> nat \<times> world" where
  "logrus_NewEntry g w =
     (length (entries w), w\<lparr>entries := entries w @ [\<lparr>Logger = g, Data = Map.empty\<rparr>]\<rparr>)"

text \<open>
  Modelled from the spec: \<open>Entry.WithField\<close> and \<open>Entry.WithError\<close> (section
  4.2: a new entry with the field merged in, the prior entry unaffected; an
  error goes under a reserved field name, \<open>error\<close> in the engine).
\<close>

definition Entry_WithField :: "nat \<Rightarrow> string \<Rightarrow> val \<Rightarrow> world \<Rightarrow> fault + nat \<times> world" where
  "Entry_WithField e key v w =
     (case deref_Entry w e of
        Inl f \<Rightarrow> Inl f
      | Inr ent \<Rightarrow>
          Inr (length (entries w),
               w\<lparr>entries := entries w @ [ent\<lparr>Data := (Data ent)(key \<mapsto> v)\<rparr>]\<rparr>))"

definition ErrorKey :: string where
  "ErrorKey = ''error''"

definition Entry_WithError :: "nat \<Rightarrow> string \<Rightarrow> world \<Rightarrow> fault + nat \<times> world" where
  "Entry_WithError e err w = Entry_WithField e ErrorKey (VError err) w"

text \<open>
  Modelled from the spec: the engine's level-gated write (section 4.2,
  \<open>emit\<close>): a line at \<open>level\<close> is written to the logger's output when the
  logger's level is at least \<open>level\<close>, and dropped otherwise.
\<close>

definition Entry_Log :: "nat \<Rightarrow> logrus_Level \<Rightarrow> string \<Rightarrow> world \<Rightarrow> fault + world" where
  "Entry_Log e level msg w =
     (case deref_Entry w e of
        Inl f \<Rightarrow> Inl f
      | Inr ent \<Rightarrow>
     (case deref_Logger w (Logger ent) of
        Inl f \<Rightarrow> Inl f
      | Inr lg \<Rightarrow>
          if level \<le> Logger_Level lg
          then Inr (w\<lparr>written := written w @
                   [\<lparr>line_out = Logger_Out lg, line_level = level,
                     line_msg = msg, line_fields = Data ent\<rparr>]\<rparr>)
          else Inr w))"

text \<open>
  The 24 emission calls with their arguments. The facade's method and the
  engine's method of an entry have the same name in every one of them.
\<close>

datatype call =
    Trace "val list"
  | Debug "val list"
  | Print "val list"
  | Info "val list"
  | Warn "val list"
  | Error "val list"
  | Fatal "val list"
  | Panic "val list"
  | Tracef string "val list"
  | Debugf string "val list"
  | Printf string "val list"
  | Infof string "val list"
  | Warnf string "val list"
  | Errorf string "val list"
  | Fatalf string "val list"
  | Panicf string "val list"
  | Traceln "val list"
  | Debugln "val list"
  | Println "val list"
  | Infoln "val list"
  | Warnln "val list"
  | Errorln "val list"
  | Fatalln "val list"
  | Panicln "val list"

text \<open>How the message is made, and what happens after the line.\<close>

datatype payload =
    Args "val list"
  | Format string "val list"
  | ArgsLn "val list"

datatype control = Continues | Exits int | Panicking

text \<open>
  Modelled from the spec: the engine's methods of an entry (sections 4.2 and
  4.3): the level each one logs at (\<open>Print\<close> at the informational level),
  the call convention, and the escalation after the line. The comments of the
  level constants in the source say the same of the escalation: \<open>Panic\<close> logs
  and then panics, \<open>Fatal\<close> logs and then calls \<open>logger.Exit(1)\<close>, also when
  the level keeps the line from being written.
\<close>

fun Entry_dispatch :: "call \<Rightarrow> logrus_Level \<times> payload \<times> control" where
  "Entry_dispatch (Trace args) = (logrus_TraceLevel, Args args, Continues)"
| "Entry_dispatch (Debug args) = (logrus_DebugLevel, Args args, Continues)"
| "Entry_dispatch (Print args) = (logrus_InfoLevel, Args args, Continues)"
| "Entry_dispatch (Info args) = (logrus_InfoLevel, Args args, Continues)"
| "Entry_dispatch (Warn args) = (logrus_WarnLevel, Args args, Continues)"
| "Entry_dispatch (Error args) = (logrus_ErrorLevel, Args args, Continues)"
| "Entry_dispatch (Fatal args) = (logrus_FatalLevel, Args args, Exits 1)"
| "Entry_dispatch (Panic args) = (logrus_PanicLevel, Args args, Panicking)"
| "Entry_dispatch (Tracef format args) = (logrus_TraceLevel, Format format args, Continues)"
| "Entry_dispatch (Debugf format args) = (logrus_DebugLevel, Format format args, Continues)"
| "Entry_dispatch (Printf format args) = (logrus_InfoLevel, Format format args, Continues)"
| "Entry_dispatch (Infof format args) = (logrus_InfoLevel, Format format args, Continues)"
| "Entry_dispatch (Warnf format args) = (logrus_WarnLevel, Format format args, Continues)"
| "Entry_dispatch (Errorf format args) = (logrus_ErrorLevel, Format format args, Continues)"
| "Entry_dispatch (Fatalf format args) = (logrus_FatalLevel, Format format args, Exits 1)"
| "Entry_dispatch (Panicf format args) = (logrus_PanicLevel, Format format args, Panicking)"
| "Entry_dispatch (Traceln args) = (logrus_TraceLevel, ArgsLn args, Continues)"
| "Entry_dispatch (Debugln args) = (logrus_DebugLevel, ArgsLn args, Continues)"
| "Entry_dispatch (Println args) = (logrus_InfoLevel, ArgsLn args, Continues)"
| "Entry_dispatch (Infoln args) = (logrus_InfoLevel, ArgsLn args, Continues)"
| "Entry_dispatch (Warnln args) = (logrus_WarnLevel, ArgsLn args, Continues)"
| "Entry_dispatch (Errorln args) = (logrus_ErrorLevel, ArgsLn args, Continues)"
| "Entry_dispatch (Fatalln args) = (logrus_FatalLevel, ArgsLn args, Exits 1)"
| "Entry_dispatch (Panicln args) = (logrus_PanicLevel, ArgsLn args, Panicking)"

text \<open>
  The message of a payload: \<open>fmt.Sprint\<close>, \<open>fmt.Sprintf\<close>, and
  \<open>fmt.Sprintln\<close> without its last byte.
\<close>

fun payload_msg :: "payload \<Rightarrow> fault + string" where
  "payload_msg (Args args) = Inr (fmt_Sprint args)"
| "payload_msg (Format format args) = fmt_Sprintf format args"
| "payload_msg (ArgsLn args) = Inr (butlast (fmt_Sprintln args))"

definition Entry_call :: "nat \<Rightarrow> call \<Rightarrow> world \<Rightarrow> fault + control \<times> world" where
  "Entry_call e c w =
     (case Entry_dispatch c of (level, p, ctl) \<Rightarrow>
     (case payload_msg p of
        Inl f \<Rightarrow> Inl f
      | Inr msg \<Rightarrow>
     (case Entry_Log e level msg w of
        Inl f \<Rightarrow> Inl f
      | Inr w' \<Rightarrow> Inr (ctl, w'))))"

subsection \<open>The call stack\<close>

text \<open>
  A frame is a file name and the line the frame is executing. The stack a
  function sees has its own frame first, then its caller's, and so on.
  \<open>runtime.Caller(skip)\<close> (Go runtime) reports the frame \<open>skip\<close> places up, 0
  being the function that calls \<open>Caller\<close>, and \<open>ok = false\<close> when there is
  none.
\<close>

type_synonym frame = "string \<times> int"

definition runtime_Caller :: "nat \<Rightarrow> frame list \<Rightarrow> string \<times> int \<times> bool" where
  "runtime_Caller skip stk =
     (if skip < length stk then (fst (stk ! skip), snd (stk ! skip), True)
      else ([], 0, False))"

text \<open>The file of the package, for the frames of its own functions.\<close>

definition log_go :: string where
  "log_go = ''/go/src/github.com/srelab/common/log/log.go''"

text \<open>
  \<open>strings.LastIndex(s, "/")\<close>: the index of the last slash, or -1.
\<close>

fun LastIndex_from :: "nat \<Rightarrow> string \<Rightarrow> int \<Rightarrow> int" where
  "LastIndex_from i [] found = found"
| "LastIndex_from i (c # cs) found =
     LastIndex_from (Suc i) cs (if c = CHR ''/'' then int i else found)"

definition LastIndex_slash :: "string \<Rightarrow> int" where
  "LastIndex_slash s = LastIndex_from 0 s (- 1)"

subsection \<open>The facade\<close>

record logger =
  entry :: nat

definition logger_With :: "logger \<Rightarrow> string \<Rightarrow> val \<Rightarrow> world \<Rightarrow> fault + logger \<times> world" where
  "logger_With l key v w =
     (case Entry_WithField (entry l) key v w of
        Inl f \<Rightarrow> Inl f
      | Inr (e, w') \<Rightarrow> Inr (\<lparr>entry = e\<rparr>, w'))"

definition logger_WithError :: "logger \<Rightarrow> string \<Rightarrow> world \<Rightarrow> fault + logger \<times> world" where
  "logger_WithError l err w =
     (case Entry_WithError (entry l) err w of
        Inl f \<Rightarrow> Inl f
      | Inr (e, w') \<Rightarrow> Inr (\<lparr>entry = e\<rparr>, w'))"

text \<open>\<open>l.entry.Logger.Level = logrus.Level(level)\<close> and \<open>l.entry.Logger.Out = out\<close>.\<close>

definition logger_SetLevel :: "logger \<Rightarrow> Level \<Rightarrow> world \<Rightarrow> fault + world" where
  "logger_SetLevel l level w =
     (case deref_Entry w (entry l) of
        Inl f \<Rightarrow> Inl f
      | Inr ent \<Rightarrow>
     (case deref_Logger w (Logger ent) of
        Inl f \<Rightarrow> Inl f
      | Inr lg \<Rightarrow>
          Inr (w\<lparr>loggers := (loggers w)[Logger ent := lg\<lparr>Logger_Level := ucast level\<rparr>]\<rparr>)))"

definition logger_SetOut :: "logger \<Rightarrow> Writer \<Rightarrow> world \<Rightarrow> fault + world" where
  "logger_SetOut l out w =
     (case deref_Entry w (entry l) of
        Inl f \<Rightarrow> Inl f
      | Inr ent \<Rightarrow>
     (case deref_Logger w (Logger ent) of
        Inl f \<Rightarrow> Inl f
      | Inr lg \<Rightarrow>
          Inr (w\<lparr>loggers := (loggers w)[Logger ent := lg\<lparr>Logger_Out := out\<rparr>]\<rparr>)))"

text \<open>
  \<open>sourced\<close>, given the stack of its caller: its own frame is at line 217,
  where it calls \<open>runtime.Caller(2)\<close>.
\<close>

definition sourced :: "logger \<Rightarrow> frame list \<Rightarrow> world \<Rightarrow> fault + nat \<times> world" where
  "sourced l stk w =
     (case runtime_Caller 2 ((log_go, 217) # stk) of
        (file0, line0, ok) \<Rightarrow>
          (let site = (if \<not> ok then (''<???>'', 1)
                       else (let slash = LastIndex_slash file0
                             in (drop (nat (slash + 1)) file0, line0)))
           in (case fmt_Sprintf ''%s:%d'' [VString (fst site), VInt (snd site)] of
                 Inl f \<Rightarrow> Inl f
               | Inr src \<Rightarrow> Entry_WithField (entry l) ''src'' (VString src) w)))"

text \<open>
  The line of each method, and of each function of the package, on which it
  calls \<open>sourced\<close>: the line its frame is at when \<open>sourced\<close> runs.
\<close>

fun method_line :: "call \<Rightarrow> int" where
  "method_line (Trace _) = 112"
| "method_line (Debug _) = 117"
| "method_line (Print _) = 122"
| "method_line (Info _) = 127"
| "method_line (Warn _) = 132"
| "method_line (Error _) = 137"
| "method_line (Fatal _) = 142"
| "method_line (Panic _) = 147"
| "method_line (Tracef _ _) = 151"
| "method_line (Debugf _ _) = 155"
| "method_line (Printf _ _) = 159"
| "method_line (Infof _ _) = 163"
| "method_line (Warnf _ _) = 167"
| "method_line (Errorf _ _) = 171"
| "method_line (Fatalf _ _) = 175"
| "method_line (Panicf _ _) = 179"
| "method_line (Traceln _) = 183"
| "method_line (Debugln _) = 187"
| "method_line (Println _) = 191"
| "method_line (Infoln _) = 195"
| "method_line (Warnln _) = 199"
| "method_line (Errorln _) = 203"
| "method_line (Fatalln _) = 207"
| "method_line (Panicln _) = 211"

fun func_line :: "call \<Rightarrow> int" where
  "func_line (Trace _) = 292"
| "func_line (Debug _) = 304"
| "func_line (Print _) = 316"
| "func_line (Info _) = 328"
| "func_line (Warn _) = 340"
| "func_line (Error _) = 352"
| "func_line (Fatal _) = 364"
| "func_line (Panic _) = 376"
| "func_line (Tracef _ _) = 296"
| "func_line (Debugf _ _) = 308"
| "func_line (Printf _ _) = 320"
| "func_line (Infof _ _) = 332"
| "func_line (Warnf _ _) = 344"
| "func_line (Errorf _ _) = 356"
| "func_line (Fatalf _ _) = 368"
| "func_line (Panicf _ _) = 380"
| "func_line (Traceln _) = 300"
| "func_line (Debugln _) = 312"
| "func_line (Println _) = 324"
| "func_line (Infoln _) = 336"
| "func_line (Warnln _) = 348"
| "func_line (Errorln _) = 360"
| "func_line (Fatalln _) = 372"
| "func_line (Panicln _) = 384"

text \<open>
  A call of a method of \<open>l\<close>. \<open>stk\<close> is the stack of the caller, its first
  frame at the line of the call.
\<close>

definition logger_call :: "logger \<Rightarrow> call \<Rightarrow> frame list \<Rightarrow> world \<Rightarrow> fault + control \<times> world" where
  "logger_call l c stk w =
     (case sourced l ((log_go, method_line c) # stk) w of
        Inl f \<Rightarrow> Inl f
      | Inr (e, w') \<Rightarrow> Entry_call e c w')"

subsection \<open>The default logger\<close>

text \<open>
  \<open>origLogger\<close> and \<open>baseLogger\<close> are set when the package is initialised
  and never assigned again: the first logger and the first entry of the
  heaps.
\<close>

definition origLogger :: nat where
  "origLogger = 0"

definition baseLogger :: logger where
  "baseLogger = \<lparr>entry = 0\<rparr>"

definition empty_world :: world where
  "empty_world = \<lparr>loggers = [], entries = [], written = []\<rparr>"

definition package_init :: world where
  "package_init =
     (let (g, w1) = logrus_New empty_world;
          (e, w2) = logrus_NewEntry g w1
      in w2)"

definition New :: "world \<Rightarrow> logger \<times> world" where
  "New w = (let (e, w') = logrus_NewEntry origLogger w in (\<lparr>entry = e\<rparr>, w'))"

definition Base :: logger where
  "Base = baseLogger"

definition SetLevel :: "Level \<Rightarrow> world \<Rightarrow> fault + world" where
  "SetLevel level w =
     (case deref_Entry w (entry baseLogger) of
        Inl f \<Rightarrow> Inl f
      | Inr ent \<Rightarrow>
     (case deref_Logger w (Logger ent) of
        Inl f \<Rightarrow> Inl f
      | Inr lg \<Rightarrow>
          Inr (w\<lparr>loggers := (loggers w)[Logger ent := lg\<lparr>Logger_Level := ucast level\<rparr>]\<rparr>)))"

definition GetLevel :: "world \<Rightarrow> fault + Level" where
  "GetLevel w =
     (case deref_Entry w (entry baseLogger) of
        Inl f \<Rightarrow> Inl f
      | Inr ent \<Rightarrow>
     (case deref_Logger w (Logger ent) of
        Inl f \<Rightarrow> Inl f
      | Inr lg \<Rightarrow> Inr (ucast (Logger_Level lg))))"

definition SetOut :: "Writer \<Rightarrow> world \<Rightarrow> fault + world" where
  "SetOut out w =
     (case deref_Entry w (entry baseLogger) of
        Inl f \<Rightarrow> Inl f
      | Inr ent \<Rightarrow>
     (case deref_Logger w (Logger ent) of
        Inl f \<Rightarrow> Inl f
      | Inr lg \<Rightarrow>
          Inr (w\<lparr>loggers := (loggers w)[Logger ent := lg\<lparr>Logger_Out := out\<rparr>]\<rparr>)))"

definition With :: "string \<Rightarrow> val \<Rightarrow> world \<Rightarrow> fault + logger \<times> world" where
  "With key v w = logger_With baseLogger key v w"

definition WithError :: "string \<Rightarrow> frame list \<Rightarrow> world \<Rightarrow> fault + logger \<times> world" where
  "WithError err stk w =
     (case sourced baseLogger ((log_go, 288) # stk) w of
        Inl f \<Rightarrow> Inl f
      | Inr (e, w') \<Rightarrow>
     (case Entry_WithError e err w' of
        Inl f \<Rightarrow> Inl f
      | Inr (e', w'') \<Rightarrow> Inr (\<lparr>entry = e'\<rparr>, w'')))"

text \<open>A call of one of the 24 functions of the package.\<close>

definition func_call :: "call \<Rightarrow> frame list \<Rightarrow> world \<Rightarrow> fault + control \<times> world" where
  "func_call c stk w =
     (case sourced baseLogger ((log_go, func_line c) # stk) w of
        Inl f \<Rightarrow> Inl f
      | Inr (e, w') \<Rightarrow> Entry_call e c w')"

subsection \<open>Init\<close>

text \<open>
  \<open>path.Clean\<close> and \<open>path.Join\<close> (Go standard library). \<open>Clean_loop\<close> is
  the loop of \<open>Clean\<close> over the rest of the path, with the buffer written so
  far and \<open>dotdot\<close>; \<open>step_back\<close> is its inner loop, which steps the write index
  back to the previous slash.
\<close>

function step_back :: "string \<Rightarrow> nat \<Rightarrow> nat \<Rightarrow> nat" where
  "step_back buf dotdot w =
     (if dotdot < w \<and> buf ! w \<noteq> CHR ''/'' then step_back buf dotdot (w - 1) else w)"
  by pat_completeness auto
termination
  by (relation "measure (\<lambda>(buf, dotdot, w). w)") auto

declare step_back.simps [simp del]

function Clean_loop :: "bool \<Rightarrow> string \<Rightarrow> string \<Rightarrow> nat \<Rightarrow> string" where
  "Clean_loop rooted [] out dotdot = out"
| "Clean_loop rooted (c # p) out dotdot =
     (if c = CHR ''/'' then Clean_loop rooted p out dotdot
      else if c = CHR ''.'' \<and> (p = [] \<or> hd p = CHR ''/'') then Clean_loop rooted p out dotdot
      else if c = CHR ''.'' \<and> hd p = CHR ''.'' \<and> (tl p = [] \<or> hd (tl p) = CHR ''/'') then
        (if dotdot < length out
         then Clean_loop rooted (tl p) (take (step_back out dotdot (length out - 1)) out) dotdot
         else if \<not> rooted
         then Clean_loop rooted (tl p)
                ((if 0 < length out then out @ ''/'' else out) @ ''..'')
                (length ((if 0 < length out then out @ ''/'' else out) @ ''..''))
         else Clean_loop rooted (tl p) out dotdot)
      else Clean_loop rooted (dropWhile (\<lambda>x. x \<noteq> CHR ''/'') p)
             ((if rooted \<and> length out \<noteq> 1 \<or> \<not> rooted \<and> length out \<noteq> 0
               then out @ ''/'' else out)
              @ c # takeWhile (\<lambda>x. x \<noteq> CHR ''/'') p)
             dotdot)"
  by pat_completeness auto
termination
  by (relation "measure (\<lambda>(rooted, p, out, dotdot). length p)")
     (simp_all add: less_Suc_eq_le length_dropWhile_le)

definition Clean :: "string \<Rightarrow> string" where
  "Clean path =
     (if path = [] then ''.''
      else let rooted = (hd path = CHR ''/'');
               out = (if rooted then Clean_loop True (tl path) ''/'' 1
                      else Clean_loop False path [] 0)
           in if out = [] then ''.'' else out)"

fun join_buf :: "string \<Rightarrow> string list \<Rightarrow> string" where
  "join_buf buf [] = buf"
| "join_buf buf (e # rest) =
     (if buf \<noteq> [] \<or> e \<noteq> []
      then join_buf ((if buf \<noteq> [] then buf @ ''/'' else buf) @ e) rest
      else join_buf buf rest)"

definition path_Join :: "string list \<Rightarrow> string" where
  "path_Join elem = (if concat elem = [] then [] else Clean (join_buf [] elem))"

text \<open>
  Modelled from the spec: \<open>logrus.ParseLevel\<close> (section 6: the names
  \<open>panic, fatal, error, warn, info, debug, trace\<close>, case-insensitive, map
  to the seven severities; any other name is an error).
\<close>

definition to_lower :: "char \<Rightarrow> char" where
  "to_lower c =
     (let n = (of_char c :: nat) in if 65 \<le> n \<and> n \<le> 90 then char_of (n + 32) else c)"

definition logrus_ParseLevel :: "string \<Rightarrow> logrus_Level \<times> string option" where
  "logrus_ParseLevel lvl =
     (let name = map to_lower lvl in
      if name = ''panic'' then (logrus_PanicLevel, None)
      else if name = ''fatal'' then (logrus_FatalLevel, None)
      else if name = ''error'' then (logrus_ErrorLevel, None)
      else if name = ''warn'' then (logrus_WarnLevel, None)
      else if name = ''info'' then (logrus_InfoLevel, None)
      else if name = ''debug'' then (logrus_DebugLevel, None)
      else if name = ''trace'' then (logrus_TraceLevel, None)
      else (0, Some ''not a valid logrus Level''))"

text \<open>
  The packages \<open>file\<close> and \<open>random\<close> of the repository are not among the
  sources. What the helpers of \<open>file\<close> answer, and the numbers the random
  generator draws, are parameters of \<open>Init\<close>; \<open>file_EnsureDirRW\<close> answers
  its error, if any.
\<close>

record deps =
  file_Dir :: "string \<Rightarrow> string"
  file_Basename :: "string \<Rightarrow> string"
  file_EnsureDirRW :: "string \<Rightarrow> string option"
  file_IsExist :: "string \<Rightarrow> bool"
  file_IsFile :: "string \<Rightarrow> bool"
  random_draw :: "nat \<Rightarrow> nat"

text \<open>
  Modelled from the spec: \<open>random.New().String(n, random.Lowercase)\<close>
  (sections 4.4 and 6: a randomly generated name of \<open>n\<close> lowercase
  characters). The character at each place is chosen by the draw for it.
\<close>

definition Lowercase :: string where
  "Lowercase = ''abcdefghijklmnopqrstuvwxyz''"

definition random_String :: "(nat \<Rightarrow> nat) \<Rightarrow> nat \<Rightarrow> string \<Rightarrow> string" where
  "random_String draw n charset =
     map (\<lambda>k. charset ! (draw k mod length charset)) [0..<n]"

definition Init :: "deps \<Rightarrow> Config \<Rightarrow> world \<Rightarrow> fault + world" where
  "Init d config w =
     (let target =
            (if file_EnsureDirRW d (file_Dir d (File config)) \<noteq> None
                \<or> (file_IsExist d (File config) \<and> \<not> file_IsFile d (File config))
             then (''./'', random_String (random_draw d) 8 Lowercase @ ''.log'')
             else (file_Dir d (File config), file_Basename d (File config)));
          level = (case logrus_ParseLevel (Level config) of
                     (level, err) \<Rightarrow> if err \<noteq> None then logrus_InfoLevel else level)
      in (case SetLevel (ucast level) w of
            Inl f \<Rightarrow> Inl f
          | Inr w' \<Rightarrow>
              SetOut (MultiWriter [Stdout, Lumberjack
                        \<lparr>Filename = path_Join [fst target, snd target],
                         MaxSize = 500, MaxBackups = 3, MaxAge = 28,
                         Compress = True, LocalTime = True\<rparr>]) w'))"

subsection \<open>Notions used in the statements\<close>

text \<open>
  A handle is valid in a world when its entry and the logger of its entry
  are allocated there: no pointer of it is nil or dangling. The package is
  initialised when the base logger's entry is allocated and bound to
  \<open>origLogger\<close>. A handle shares the default engine when it is valid and its
  entry is bound to \<open>origLogger\<close>.
\<close>

definition valid :: "world \<Rightarrow> logger \<Rightarrow> bool" where
  "valid w l =
     (entry l < length (entries w) \<and> Logger (entries w ! entry l) < length (loggers w))"

definition shares_default :: "world \<Rightarrow> logger \<Rightarrow> bool" where
  "shares_default w l = (valid w l \<and> Logger (entries w ! entry l) = origLogger)"

definition initialised :: "world \<Rightarrow> bool" where
  "initialised w = shares_default w baseLogger"

text \<open>
  What a handle reads through \<open>l.entry.Logger\<close>: the level that gates its
  lines and the output they go to; the fields attached to it.
\<close>

definition Level_of :: "world \<Rightarrow> logger \<Rightarrow> logrus_Level" where
  "Level_of w l = Logger_Level (loggers w ! Logger (entries w ! entry l))"

definition Out_of :: "world \<Rightarrow> logger \<Rightarrow> Writer" where
  "Out_of w l = Logger_Out (loggers w ! Logger (entries w ! entry l))"

definition fields_of :: "world \<Rightarrow> logger \<Rightarrow> string \<rightharpoonup> val" where
  "fields_of w l = Data (entries w ! entry l)"

text \<open>The lines a step has added to the world's output.\<close>

definition new_lines :: "world \<Rightarrow> world \<Rightarrow> written_line list" where
  "new_lines w w' = drop (length (written w)) (written w')"

text \<open>The text \<open>sourced\<close> makes of a caller's file and line.\<close>

definition src_text :: "string \<Rightarrow> int \<Rightarrow> string" where
  "src_text file line = drop (nat (LastIndex_slash file + 1)) file @ '':'' @ itoa line"

text \<open>
  The \<open>src\<close> text for the stack of the caller of a method or function of
  the package: of its first frame, or the sentinel when there is none.
\<close>

definition caller_src :: "frame list \<Rightarrow> string" where
  "caller_src stk = (case stk of [] \<Rightarrow> ''<???>:1'' | (file, line) # _ \<Rightarrow> src_text file line)"

text \<open>The messages of the lines of a call's result.\<close>

definition messages :: "fault + control \<times> world \<Rightarrow> string list" where
  "messages r = (case r of Inl f \<Rightarrow> [] | Inr (ctl, w) \<Rightarrow> map line_msg (written w))"

section \<open>Properties of the validator\<close>

lemma area_31_absent: "area ''31'' = None"
  by (simp add: area_def area_entries_def)

lemma area_space_31_present: "area '' 31'' \<noteq> None"
  by (simp add: area_def area_entries_def)

text \<open>
  C9: the area table has the key \<open>" 31"\<close>, with a leading space, and no key
  \<open>"31"\<close>. The key looked up is the first two bytes of the number, so it is
  never the three-byte key; every number that passes the format expression
  and starts with \<open>31\<close> is rejected with \<open>(false, ErrAddressInvalid)\<close>.
\<close>

theorem Validate_prefix_31_is_address_error:
  assumes "validateReg i = None" and "take 2 (Number i) = ''31''"
  shows "area '' 31'' \<noteq> None \<and> area ''31'' = None
         \<and> take 2 (Number i) \<noteq> '' 31''
         \<and> validateArea i = Returns (Some ErrAddressInvalid)
         \<and> Validate max_date local_offset i = Returns (False, Some ErrAddressInvalid)"
proof -
  from assms(2) have len: "\<not> length (Number i) < 2"
    by (cases "Number i"; cases "tl (Number i)") auto
  have a: "validateArea i = Returns (Some ErrAddressInvalid)"
    using len assms(2) by (simp add: validateArea_def area_31_absent)
  show ?thesis
    using a assms by (simp add: Validate_def area_31_absent area_space_31_present)
qed

theorem Validate_prefix_31_is_address_error_witness:
  "validateReg \<lparr>Number = ''310105194912310025''\<rparr> = None
   \<and> take 2 (Number \<lparr>Number = ''310105194912310025''\<rparr>) = ''31''
   \<and> Validate 1700000000 28800 \<lparr>Number = ''310105194912310025''\<rparr>
       = Returns (False, Some ErrAddressInvalid)"
proof -
  have r: "validateReg \<lparr>Number = ''310105194912310025''\<rparr> = None" by code_simp
  have t: "take 2 (Number \<lparr>Number = ''310105194912310025''\<rparr>) = ''31''" by simp
  show ?thesis
    using Validate_prefix_31_is_address_error [OF r t, of 1700000000 28800] r t by simp
qed

lemma min_date_value: "min_date local_offset = - 2527286400 - local_offset"
  by (simp add: min_date_def time_Date_def daysSinceEpoch_def daysBefore_def isLeap_def Let_def)

lemma validateBirth_not_range:
  assumes "min_date local_offset \<le> max_date"
  shows "validateBirth max_date local_offset i \<noteq> Returns (Some ErrBirthRangeInvalid)"
  using assms
  by (auto simp: validateBirth_def After_def Before_def Let_def split: option.splits)

text \<open>
  C10: the range branch of \<open>validateBirth\<close> asks for a date after \<open>max_date\<close>
  and before \<open>min_date\<close> at once. With \<open>max_date\<close>, the clock when the package
  was initialised, not before \<open>min_date\<close> (30 November 1889, local time), no
  date is both: \<open>validateBirth\<close> and \<open>Validate\<close> never answer
  \<open>ErrBirthRangeInvalid\<close>, and every birth date that parses passes the range
  check.
\<close>

theorem Validate_never_birth_range:
  assumes "min_date local_offset \<le> max_date"
  shows "validateBirth max_date local_offset i \<noteq> Returns (Some ErrBirthRangeInvalid)
         \<and> Validate max_date local_offset i \<noteq> Returns (flag, Some ErrBirthRangeInvalid)
         \<and> (\<forall>date. 14 \<le> length (Number i)
               \<and> time_Parse_20060102 (take 8 (drop 6 (Number i))) = Some date
               \<longrightarrow> validateBirth max_date local_offset i = Returns None)"
proof -
  have b: "validateBirth max_date local_offset i \<noteq> Returns (Some ErrBirthRangeInvalid)"
    by (rule validateBirth_not_range [OF assms])
  have v: "Validate max_date local_offset i \<noteq> Returns (flag, Some ErrBirthRangeInvalid)"
    using b
    by (auto simp: Validate_def validateReg_def validateArea_def validateSum_def
             split: option.splits outcome.splits if_splits)
  have p: "\<forall>date. 14 \<le> length (Number i)
               \<and> time_Parse_20060102 (take 8 (drop 6 (Number i))) = Some date
               \<longrightarrow> validateBirth max_date local_offset i = Returns None"
    using assms by (auto simp: validateBirth_def After_def Before_def Let_def)
  from b v p show ?thesis by blast
qed

text \<open>
  At a clock of November 2023 in a zone eight hours east, a number with the
  birth date 31 December 2099 is valid.
\<close>

theorem Validate_never_birth_range_witness:
  "min_date 28800 \<le> 1700000000
   \<and> time_Parse_20060102 (take 8 (drop 6 ''110105209912310029'')) = Some 4102358400
   \<and> validateBirth 1700000000 28800 \<lparr>Number = ''110105209912310029''\<rparr> = Returns None
   \<and> Validate 1700000000 28800 \<lparr>Number = ''110105209912310029''\<rparr> = Returns (True, None)"
proof -
  have m: "min_date 28800 \<le> 1700000000" by (simp add: min_date_value)
  have p: "time_Parse_20060102 (take 8 (drop 6 ''110105209912310029'')) = Some 4102358400"
    by code_simp
  have v: "Validate 1700000000 28800 \<lparr>Number = ''110105209912310029''\<rparr> = Returns (True, None)"
    by code_simp
  show ?thesis
    using Validate_never_birth_range [OF m, of "\<lparr>Number = ''110105209912310029''\<rparr>" True] m p v
    by simp
qed

section \<open>Properties of the logger\<close>

subsection \<open>What a call does\<close>

lemma LastIndex_from_none:
  "CHR ''/'' \<notin> set s \<Longrightarrow> LastIndex_from i s found = found"
  by (induction s arbitrary: i found) auto

lemma LastIndex_from_last:
  "CHR ''/'' \<notin> set suf \<Longrightarrow>
   LastIndex_from i (pre @ CHR ''/'' # suf) found = int (i + length pre)"
  by (induction pre arbitrary: i found) (auto simp: LastIndex_from_none)

lemma file_tail_cases:
  "(CHR ''/'' \<notin> set file \<and> drop (nat (LastIndex_slash file + 1)) file = file)
   \<or> (\<exists>pre suf. file = pre @ CHR ''/'' # suf \<and> CHR ''/'' \<notin> set suf
        \<and> drop (nat (LastIndex_slash file + 1)) file = suf)"
proof (cases "CHR ''/'' \<in> set file")
  case False
  then show ?thesis by (simp add: LastIndex_slash_def LastIndex_from_none)
next
  case True
  then obtain pre suf where f: "file = pre @ CHR ''/'' # suf" and n: "CHR ''/'' \<notin> set suf"
    by (meson split_list_last)
  have "LastIndex_slash file = int (length pre)"
    using LastIndex_from_last [OF n, of 0 pre "- 1"] f by (simp add: LastIndex_slash_def)
  then have "nat (LastIndex_slash file + 1) = Suc (length pre)"
    by simp
  then have "drop (nat (LastIndex_slash file + 1)) file = suf"
    using f by simp
  with f n show ?thesis by blast
qed

lemma runtime_Caller_2:
  "runtime_Caller 2 (f0 # f1 # (file, line) # rest) = (file, line, True)"
  by (simp add: runtime_Caller_def)

lemma sourced_ok:
  "sourced l (f1 # (file, line) # rest) w
   = Entry_WithField (entry l) ''src'' (VString (src_text file line)) w"
  by (simp add: sourced_def runtime_Caller_2 prepend_def src_text_def Let_def)

lemma sourced_fail:
  "length stk < 2 \<Longrightarrow>
   sourced l stk w = Entry_WithField (entry l) ''src'' (VString ''<???>:1'') w"
proof -
  assume "length stk < 2"
  then have "runtime_Caller 2 ((log_go, 217) # stk) = ([], 0, False)"
    by (simp add: runtime_Caller_def)
  moreover have "itoa 1 = ''1''" by code_simp
  ultimately show ?thesis
    by (simp add: sourced_def prepend_def Let_def)
qed

lemma Entry_WithField_valid:
  "entry l < length (entries w) \<Longrightarrow>
   Entry_WithField (entry l) key v w
   = Inr (length (entries w),
          w\<lparr>entries := entries w @
               [(entries w ! entry l)\<lparr>Data := (fields_of w l)(key \<mapsto> v)\<rparr>]\<rparr>)"
  by (simp add: Entry_WithField_def deref_Entry_def fields_of_def)

lemma sourced_eq:
  "sourced l (f1 # stk) w
   = Entry_WithField (entry l) ''src'' (VString (caller_src stk)) w"
proof (cases stk)
  case Nil
  then show ?thesis using sourced_fail [of "[f1]" l w] by (simp add: caller_src_def)
next
  case (Cons fr rest)
  then show ?thesis
    using sourced_ok [of l f1 "fst fr" "snd fr" rest w]
    by (simp add: caller_src_def split: prod.splits)
qed

lemma Entry_Log_eq:
  assumes "e < length (entries w)" and "Logger (entries w ! e) < length (loggers w)"
  shows "Entry_Log e level msg w =
         Inr (if level \<le> Logger_Level (loggers w ! Logger (entries w ! e))
              then w\<lparr>written := written w @
                     [\<lparr>line_out = Logger_Out (loggers w ! Logger (entries w ! e)),
                       line_level = level, line_msg = msg,
                       line_fields = Data (entries w ! e)\<rparr>]\<rparr>
              else w)"
  using assms by (simp add: Entry_Log_def deref_Entry_def deref_Logger_def)

text \<open>The world after \<open>sourced\<close>, and the line a call writes.\<close>

lemma logger_call_eq:
  assumes v: "valid w l"
    and d: "Entry_dispatch c = (level, p, ctl)"
    and m: "payload_msg p = Inr msg"
  shows "logger_call l c stk w =
         Inr (ctl,
              (if level \<le> Level_of w l
               then w\<lparr>entries := entries w @
                        [(entries w ! entry l)
                           \<lparr>Data := (fields_of w l)(''src'' \<mapsto> VString (caller_src stk))\<rparr>],
                      written := written w @
                        [\<lparr>line_out = Out_of w l, line_level = level, line_msg = msg,
                          line_fields = (fields_of w l)(''src'' \<mapsto> VString (caller_src stk))\<rparr>]\<rparr>
               else w\<lparr>entries := entries w @
                        [(entries w ! entry l)
                           \<lparr>Data := (fields_of w l)(''src'' \<mapsto> VString (caller_src stk))\<rparr>]\<rparr>))"
proof -
  let ?ent = "(entries w ! entry l)\<lparr>Data := (fields_of w l)(''src'' \<mapsto> VString (caller_src stk))\<rparr>"
  let ?w1 = "w\<lparr>entries := entries w @ [?ent]\<rparr>"
  from v have e: "entry l < length (entries w)"
    and g: "Logger (entries w ! entry l) < length (loggers w)"
    by (simp_all add: valid_def)
  have s: "sourced l ((log_go, method_line c) # stk) w = Inr (length (entries w), ?w1)"
    using Entry_WithField_valid [OF e] by (simp add: sourced_eq)
  have e1: "length (entries w) < length (entries ?w1)" by simp
  have g1: "Logger (entries ?w1 ! length (entries w)) < length (loggers ?w1)"
    using g by simp
  show ?thesis
    using s d m Entry_Log_eq [OF e1 g1, of level msg]
    by (simp add: logger_call_def Entry_call_def Level_of_def Out_of_def fields_of_def)
qed

lemma func_call_eq_logger_call: "func_call c stk w = logger_call baseLogger c stk w"
  by (simp add: func_call_def logger_call_def sourced_eq)

lemma package_init_eq:
  "package_init = \<lparr>loggers = [\<lparr>Logger_Out = Stderr, Logger_Level = logrus_InfoLevel\<rparr>],
                   entries = [\<lparr>Logger = 0, Data = Map.empty\<rparr>], written = []\<rparr>"
  by (simp add: package_init_def logrus_New_def logrus_NewEntry_def empty_world_def)

lemma valid_package_init: "valid package_init baseLogger"
  by (simp add: package_init_eq valid_def baseLogger_def)

lemma initialised_package_init: "initialised package_init"
  by (simp add: package_init_eq initialised_def shares_default_def valid_def baseLogger_def
        origLogger_def)

lemma logger_call_Inr_payload:
  assumes v: "valid w l" and r: "logger_call l c stk w = Inr (ctl, w')"
  shows "\<exists>level p msg. Entry_dispatch c = (level, p, ctl) \<and> payload_msg p = Inr msg"
proof -
  obtain level p ctl0 where d: "Entry_dispatch c = (level, p, ctl0)"
    by (cases "Entry_dispatch c") auto
  from v have e: "entry l < length (entries w)" by (simp add: valid_def)
  show ?thesis
  proof (cases "payload_msg p")
    case (Inl f)
    then have "logger_call l c stk w = Inl f"
      using d Entry_WithField_valid [OF e]
      by (simp add: logger_call_def sourced_eq Entry_call_def)
    with r show ?thesis by simp
  next
    case (Inr msg)
    from logger_call_eq [OF v d Inr, of stk] r have "ctl0 = ctl" by simp
    with d Inr show ?thesis by blast
  qed
qed

lemma logger_call_new_lines:
  assumes v: "valid w l" and r: "logger_call l c stk w = Inr (ctl, w')"
    and ln: "ln \<in> set (new_lines w w')"
  shows "line_fields ln = (fields_of w l)(''src'' \<mapsto> VString (caller_src stk))
         \<and> line_out ln = Out_of w l \<and> line_level ln = fst (Entry_dispatch c)"
proof -
  from logger_call_Inr_payload [OF v r] obtain level p msg
    where d: "Entry_dispatch c = (level, p, ctl)" and m: "payload_msg p = Inr msg" by blast
  from logger_call_eq [OF v d m, of stk] r ln d show ?thesis
    by (auto simp: new_lines_def split: if_splits)
qed

text \<open>
  C5: when \<open>runtime.Caller\<close> answers \<open>ok = false\<close>, \<open>sourced\<close> still returns
  an entry and its \<open>src\<close> field is \<open><???>:1\<close>, and a call of a method with no
  frame to report still completes, its line carrying that text. When it
  answers a file and a line, the \<open>src\<close> field is the part of the file name
  after its last slash (the whole name when it has none), a colon and the
  line.
\<close>

theorem sourced_sentinel_and_short_name:
  assumes "valid w l"
  shows "\<exists>w'. sourced l stk w = Inr (length (entries w), w')
           \<and> (snd (snd (runtime_Caller 2 ((log_go, 217) # stk))) = False
                \<longrightarrow> fields_of w' \<lparr>entry = length (entries w)\<rparr> ''src'' = Some (VString ''<???>:1''))
           \<and> (\<forall>file line. runtime_Caller 2 ((log_go, 217) # stk) = (file, line, True)
                \<longrightarrow> (\<exists>pre short.
                       file = pre @ short \<and> CHR ''/'' \<notin> set short
                       \<and> (pre = [] \<or> last pre = CHR ''/'')
                       \<and> fields_of w' \<lparr>entry = length (entries w)\<rparr> ''src''
                           = Some (VString (short @ '':'' @ itoa line))))
           \<and> (\<forall>c level p ctl msg.
                 Entry_dispatch c = (level, p, ctl) \<and> payload_msg p = Inr msg
                 \<longrightarrow> (\<exists>w2. logger_call l c [] w = Inr (ctl, w2)
                        \<and> (\<forall>ln \<in> set (new_lines w w2).
                              line_fields ln ''src'' = Some (VString ''<???>:1''))))"
proof -
  from assms have e: "entry l < length (entries w)" by (simp add: valid_def)
  let ?src = "\<lambda>t. w\<lparr>entries := entries w @
                  [(entries w ! entry l)\<lparr>Data := (fields_of w l)(''src'' \<mapsto> VString t)\<rparr>]\<rparr>"
  have one: "itoa 1 = ''1''" by code_simp
  have calls: "\<forall>c level p ctl msg.
                 Entry_dispatch c = (level, p, ctl) \<and> payload_msg p = Inr msg
                 \<longrightarrow> (\<exists>w2. logger_call l c [] w = Inr (ctl, w2)
                        \<and> (\<forall>ln \<in> set (new_lines w w2).
                              line_fields ln ''src'' = Some (VString ''<???>:1'')))"
  proof (intro allI impI)
    fix c level p ctl msg
    assume "Entry_dispatch c = (level, p, ctl) \<and> payload_msg p = Inr msg"
    then have d: "Entry_dispatch c = (level, p, ctl)" and m: "payload_msg p = Inr msg" by auto
    from logger_call_eq [OF assms d m, of "[]"] obtain w2
      where r: "logger_call l c [] w = Inr (ctl, w2)" by auto
    have "\<forall>ln \<in> set (new_lines w w2). line_fields ln ''src'' = Some (VString ''<???>:1'')"
      using logger_call_new_lines [OF assms r] by (simp add: caller_src_def)
    with r show "\<exists>w2. logger_call l c [] w = Inr (ctl, w2)
                        \<and> (\<forall>ln \<in> set (new_lines w w2).
                              line_fields ln ''src'' = Some (VString ''<???>:1''))" by blast
  qed
  show ?thesis
  proof (cases "length stk < 2")
    case True
    then have c: "runtime_Caller 2 ((log_go, 217) # stk) = ([], 0, False)"
      by (simp add: runtime_Caller_def)
    have s: "sourced l stk w = Inr (length (entries w), ?src ''<???>:1'')"
      using sourced_fail [OF True] Entry_WithField_valid [OF e] by simp
    show ?thesis
      using s c calls by (simp add: fields_of_def)
  next
    case False
    then obtain f1 fr rest where stk: "stk = f1 # fr # rest"
      by (cases stk; cases "tl stk") auto
    have c: "runtime_Caller 2 ((log_go, 217) # stk) = (fst fr, snd fr, True)"
      using stk by (simp add: runtime_Caller_def)
    have s: "sourced l stk w = Inr (length (entries w), ?src (src_text (fst fr) (snd fr)))"
      using stk sourced_ok [of l f1 "fst fr" "snd fr" rest w] Entry_WithField_valid [OF e]
      by simp
    from file_tail_cases [of "fst fr"]
    obtain pre short where sh:
      "fst fr = pre @ short" "CHR ''/'' \<notin> set short" "pre = [] \<or> last pre = CHR ''/''"
      "drop (nat (LastIndex_slash (fst fr) + 1)) (fst fr) = short"
    proof (elim disjE conjE exE)
      assume "CHR ''/'' \<notin> set (fst fr)"
        and "drop (nat (LastIndex_slash (fst fr) + 1)) (fst fr) = fst fr"
      then show ?thesis using that [of "[]" "fst fr"] by simp
    next
      fix pre suf
      assume "fst fr = pre @ CHR ''/'' # suf" and "CHR ''/'' \<notin> set suf"
        and "drop (nat (LastIndex_slash (fst fr) + 1)) (fst fr) = suf"
      then show ?thesis using that [of "pre @ ''/''" suf] by simp
    qed
    have "fields_of (?src (src_text (fst fr) (snd fr))) \<lparr>entry = length (entries w)\<rparr> ''src''
          = Some (VString (short @ '':'' @ itoa (snd fr)))"
      using sh(4) by (simp add: fields_of_def src_text_def)
    with sh(1-3) s c calls show ?thesis by auto
  qed
qed

lemma length_entries_package_init: "length (entries package_init) = 1"
  by (simp add: package_init_eq)

lemma src_text_main_go: "src_text ''/home/app/cmd/main.go'' 42 = ''main.go:42''"
proof -
  have "itoa 42 = ''42''" by code_simp
  moreover have "LastIndex_slash ''/home/app/cmd/main.go'' = 13"
    by (simp add: LastIndex_slash_def)
  ultimately show ?thesis by (simp add: src_text_def)
qed

theorem sourced_sentinel_and_short_name_witness:
  "valid package_init baseLogger
   \<and> snd (snd (runtime_Caller 2 [(log_go, 217), (log_go, 127)])) = False
   \<and> (\<exists>w'. sourced baseLogger [(log_go, 127)] package_init = Inr (1, w')
          \<and> fields_of w' \<lparr>entry = 1\<rparr> ''src'' = Some (VString ''<???>:1''))
   \<and> runtime_Caller 2 [(log_go, 217), (log_go, 127), (''/home/app/cmd/main.go'', 42)]
       = (''/home/app/cmd/main.go'', 42, True)
   \<and> (\<exists>w'. sourced baseLogger [(log_go, 127), (''/home/app/cmd/main.go'', 42)] package_init
            = Inr (1, w')
          \<and> fields_of w' \<lparr>entry = 1\<rparr> ''src'' = Some (VString ''main.go:42'')
          \<and> (\<exists>pre short. ''/home/app/cmd/main.go'' = pre @ short \<and> CHR ''/'' \<notin> set short
                \<and> (pre = [] \<or> last pre = CHR ''/'')
                \<and> fields_of w' \<lparr>entry = 1\<rparr> ''src'' = Some (VString (short @ '':'' @ itoa 42))))"
proof -
  have c1: "snd (snd (runtime_Caller 2 [(log_go, 217), (log_go, 127)])) = False"
    by (simp add: runtime_Caller_def)
  have c2: "runtime_Caller 2 [(log_go, 217), (log_go, 127), (''/home/app/cmd/main.go'', 42)]
       = (''/home/app/cmd/main.go'', 42, True)"
    by (simp add: runtime_Caller_def)
  have e0: "entry baseLogger < length (entries package_init)"
    using valid_package_init by (simp add: valid_def)
  have "sourced baseLogger [(log_go, 127), (''/home/app/cmd/main.go'', 42)] package_init
        = Entry_WithField (entry baseLogger) ''src'' (VString ''main.go:42'') package_init"
    by (simp only: sourced_ok src_text_main_go)
  also have "\<dots> = Inr (1, package_init\<lparr>entries := entries package_init @
                 [(entries package_init ! entry baseLogger)
                    \<lparr>Data := (fields_of package_init baseLogger)
                               (''src'' \<mapsto> VString ''main.go:42'')\<rparr>]\<rparr>)"
    by (simp only: Entry_WithField_valid [OF e0] length_entries_package_init)
  finally have s2: "sourced baseLogger [(log_go, 127), (''/home/app/cmd/main.go'', 42)] package_init
            = Inr (1, package_init\<lparr>entries := entries package_init @
                 [(entries package_init ! entry baseLogger)
                    \<lparr>Data := (fields_of package_init baseLogger)
                               (''src'' \<mapsto> VString ''main.go:42'')\<rparr>]\<rparr>)" .
  from sourced_sentinel_and_short_name [OF valid_package_init, of "[(log_go, 127)]"]
  obtain w1 where r1: "sourced baseLogger [(log_go, 127)] package_init
                       = Inr (length (entries package_init), w1)"
    and i1: "snd (snd (runtime_Caller 2 ((log_go, 217) # [(log_go, 127)]))) = False
             \<longrightarrow> fields_of w1 \<lparr>entry = length (entries package_init)\<rparr> ''src''
                 = Some (VString ''<???>:1'')"
    by blast
  from i1 c1 have "fields_of w1 \<lparr>entry = length (entries package_init)\<rparr> ''src''
                 = Some (VString ''<???>:1'')" by simp
  with r1 have a: "\<exists>w'. sourced baseLogger [(log_go, 127)] package_init = Inr (1, w')
          \<and> fields_of w' \<lparr>entry = 1\<rparr> ''src'' = Some (VString ''<???>:1'')"
    by (simp add: length_entries_package_init)
  from sourced_sentinel_and_short_name
         [OF valid_package_init, of "[(log_go, 127), (''/home/app/cmd/main.go'', 42)]"]
  obtain w2 where r2: "sourced baseLogger [(log_go, 127), (''/home/app/cmd/main.go'', 42)]
                         package_init = Inr (length (entries package_init), w2)"
    and i2: "\<forall>file line.
               runtime_Caller 2 ((log_go, 217) # [(log_go, 127), (''/home/app/cmd/main.go'', 42)])
                 = (file, line, True)
               \<longrightarrow> (\<exists>pre short.
                      file = pre @ short \<and> CHR ''/'' \<notin> set short
                      \<and> (pre = [] \<or> last pre = CHR ''/'')
                      \<and> fields_of w2 \<lparr>entry = length (entries package_init)\<rparr> ''src''
                          = Some (VString (short @ '':'' @ itoa line)))"
    by blast
  from i2 c2 have p2: "\<exists>pre short. ''/home/app/cmd/main.go'' = pre @ short
                \<and> CHR ''/'' \<notin> set short \<and> (pre = [] \<or> last pre = CHR ''/'')
                \<and> fields_of w2 \<lparr>entry = length (entries package_init)\<rparr> ''src''
                    = Some (VString (short @ '':'' @ itoa 42))"
    by simp
  from r2 s2 have w2: "w2 = package_init\<lparr>entries := entries package_init @
                 [(entries package_init ! entry baseLogger)
                    \<lparr>Data := (fields_of package_init baseLogger)
                               (''src'' \<mapsto> VString ''main.go:42'')\<rparr>]\<rparr>"
    by simp
  have "fields_of w2 \<lparr>entry = 1\<rparr> ''src'' = Some (VString ''main.go:42'')"
    by (simp add: w2 fields_of_def nth_append length_entries_package_init)
  with r2 p2
  have b: "\<exists>w'. sourced baseLogger [(log_go, 127), (''/home/app/cmd/main.go'', 42)] package_init
            = Inr (1, w')
          \<and> fields_of w' \<lparr>entry = 1\<rparr> ''src'' = Some (VString ''main.go:42'')
          \<and> (\<exists>pre short. ''/home/app/cmd/main.go'' = pre @ short \<and> CHR ''/'' \<notin> set short
                \<and> (pre = [] \<or> last pre = CHR ''/'')
                \<and> fields_of w' \<lparr>entry = 1\<rparr> ''src'' = Some (VString (short @ '':'' @ itoa 42)))"
    by (simp add: length_entries_package_init)
  from valid_package_init c1 a c2 b show ?thesis by blast
qed

text \<open>
  C4: every one of the 24 calls, as a method of a handle and as a function
  of the package on the default logger, hands the engine an entry whose
  \<open>src\<close> field is the short file name and the line of the frame that made the
  call, two frames above \<open>sourced\<close>, whatever the lines of the package's own
  frames; a written line carries that field. The fields are a map, so there
  is one \<open>src\<close>.
\<close>

theorem call_src_is_direct_caller:
  assumes "valid w l" and "Entry_dispatch c = (level, p, ctl)" and "payload_msg p = Inr msg"
  shows "runtime_Caller 2 ((log_go, 217) # (log_go, method_line c) # (file, line) # rest)
           = (file, line, True)
         \<and> runtime_Caller 2 ((log_go, 217) # (log_go, func_line c) # (file, line) # rest)
           = (file, line, True)
         \<and> (\<exists>w'. logger_call l c ((file, line) # rest) w = Inr (ctl, w')
              \<and> fields_of w' \<lparr>entry = length (entries w)\<rparr> ''src''
                  = Some (VString (src_text file line))
              \<and> (\<forall>ln \<in> set (new_lines w w').
                    line_fields ln ''src'' = Some (VString (src_text file line))))
         \<and> func_call c ((file, line) # rest) w = logger_call baseLogger c ((file, line) # rest) w"
proof -
  from logger_call_eq [OF assms, of "(file, line) # rest"]
  obtain w' where r: "logger_call l c ((file, line) # rest) w = Inr (ctl, w')"
    and e: "entries w' = entries w @
              [(entries w ! entry l)
                 \<lparr>Data := (fields_of w l)(''src'' \<mapsto> VString (caller_src ((file, line) # rest)))\<rparr>]"
    by (auto split: if_splits)
  have f: "fields_of w' \<lparr>entry = length (entries w)\<rparr> ''src'' = Some (VString (src_text file line))"
    using e by (simp add: fields_of_def caller_src_def)
  have n: "\<forall>ln \<in> set (new_lines w w').
             line_fields ln ''src'' = Some (VString (src_text file line))"
    using logger_call_new_lines [OF assms(1) r] by (simp add: caller_src_def)
  from r f n show ?thesis
    by (simp add: runtime_Caller_2 func_call_eq_logger_call)
qed

lemma Level_of_package_init: "Level_of package_init baseLogger = logrus_InfoLevel"
  by (simp add: package_init_eq Level_of_def baseLogger_def)

lemma written_package_init: "written package_init = []"
  by (simp add: package_init_eq)

theorem call_src_is_direct_caller_witness:
  "valid package_init baseLogger
   \<and> Entry_dispatch (Infof ''listening on %s'' [VString '':80''])
       = (logrus_InfoLevel, Format ''listening on %s'' [VString '':80''], Continues)
   \<and> payload_msg (Format ''listening on %s'' [VString '':80'']) = Inr ''listening on :80''
   \<and> (\<exists>w'. func_call (Infof ''listening on %s'' [VString '':80''])
              [(''/home/app/cmd/main.go'', 42)] package_init = Inr (Continues, w')
          \<and> fields_of w' \<lparr>entry = 1\<rparr> ''src'' = Some (VString ''main.go:42'')
          \<and> new_lines package_init w' \<noteq> []
          \<and> (\<forall>ln \<in> set (new_lines package_init w').
                line_fields ln ''src'' = Some (VString ''main.go:42'')))"
proof -
  let ?c = "Infof ''listening on %s'' [VString '':80'']"
  let ?stk = "[(''/home/app/cmd/main.go'', 42)]"
  have d: "Entry_dispatch ?c
       = (logrus_InfoLevel, Format ''listening on %s'' [VString '':80''], Continues)" by simp
  have m: "payload_msg (Format ''listening on %s'' [VString '':80'']) = Inr ''listening on :80''"
    by (simp add: prepend_def)
  from call_src_is_direct_caller [OF valid_package_init d m, of "''/home/app/cmd/main.go''" 42 "[]"]
  have ex: "\<exists>w'. logger_call baseLogger ?c ?stk package_init = Inr (Continues, w')
              \<and> fields_of w' \<lparr>entry = length (entries package_init)\<rparr> ''src''
                  = Some (VString (src_text ''/home/app/cmd/main.go'' 42))
              \<and> (\<forall>ln \<in> set (new_lines package_init w').
                    line_fields ln ''src'' = Some (VString (src_text ''/home/app/cmd/main.go'' 42)))"
    and fc: "func_call ?c ?stk package_init = logger_call baseLogger ?c ?stk package_init"
    by blast+
  from ex obtain w' where r: "logger_call baseLogger ?c ?stk package_init = Inr (Continues, w')"
    and f: "fields_of w' \<lparr>entry = length (entries package_init)\<rparr> ''src''
                  = Some (VString (src_text ''/home/app/cmd/main.go'' 42))"
    and n: "\<forall>ln \<in> set (new_lines package_init w').
                    line_fields ln ''src'' = Some (VString (src_text ''/home/app/cmd/main.go'' 42))"
    by blast
  have "written w' \<noteq> []"
    using r logger_call_eq [OF valid_package_init d m, of ?stk]
    by (simp add: Level_of_package_init) (erule subst, simp)
  then have ne: "new_lines package_init w' \<noteq> []"
    by (simp add: new_lines_def written_package_init)
  from f have f': "fields_of w' \<lparr>entry = 1\<rparr> ''src'' = Some (VString ''main.go:42'')"
    by (simp only: src_text_main_go length_entries_package_init)
  from n have n': "\<forall>ln \<in> set (new_lines package_init w').
                line_fields ln ''src'' = Some (VString ''main.go:42'')"
    by (simp only: src_text_main_go)
  from r fc have r': "func_call ?c ?stk package_init = Inr (Continues, w')" by simp
  from valid_package_init d m r' f' ne n' show ?thesis by blast
qed

subsection \<open>Attaching fields\<close>

lemma logger_With_eq:
  assumes "valid w l"
  shows "logger_With l key v w =
         Inr (\<lparr>entry = length (entries w)\<rparr>,
              w\<lparr>entries := entries w @
                   [(entries w ! entry l)\<lparr>Data := (fields_of w l)(key \<mapsto> v)\<rparr>]\<rparr>)"
  using assms by (simp add: logger_With_def Entry_WithField_valid valid_def)

lemma logger_WithError_eq:
  "logger_WithError l err w = logger_With l ''error'' (VError err) w"
  by (simp add: logger_WithError_def logger_With_def Entry_WithError_def ErrorKey_def)

text \<open>Allocating an entry leaves every handle of the old world as it was.\<close>

lemma valid_extend:
  "valid w l \<Longrightarrow> valid (w\<lparr>entries := entries w @ [ent]\<rparr>) l"
  by (simp add: valid_def nth_append)

lemma fields_of_extend:
  "valid w l \<Longrightarrow> fields_of (w\<lparr>entries := entries w @ [ent]\<rparr>) l = fields_of w l"
  by (simp add: valid_def fields_of_def nth_append)

lemma fields_of_new:
  "fields_of (w\<lparr>entries := entries w @ [ent]\<rparr>) \<lparr>entry = length (entries w)\<rparr> = Data ent"
  by (simp add: fields_of_def)

lemma valid_new:
  "valid w l \<Longrightarrow>
   valid (w\<lparr>entries := entries w @ [(entries w ! entry l)\<lparr>Data := d\<rparr>]\<rparr>)
         \<lparr>entry = length (entries w)\<rparr>"
  by (simp add: valid_def)

text \<open>
  C1: \<open>With\<close> and \<open>WithError\<close> return a handle on a newly allocated entry,
  the fields of the old one with the new field added, and change nothing
  else: the entries already allocated, the loggers and the output are as
  before. After \<open>With("a", 1)\<close> on \<open>L\<close> and \<open>With("b", 2)\<close> on the result, the
  entry of \<open>L\<close> is the one it was, and a line logged through \<open>L\<close> or through the
  intermediate handle has at \<open>b\<close> what \<open>L\<close> had there before: nothing, when
  \<open>L\<close> had no such field.
\<close>

theorem With_is_copy_on_attach:
  assumes "valid w L"
  shows "(\<forall>key v. \<exists>w'.
            logger_With L key v w = Inr (\<lparr>entry = length (entries w)\<rparr>, w')
          \<and> entry L < length (entries w)
          \<and> take (length (entries w)) (entries w') = entries w
          \<and> loggers w' = loggers w \<and> written w' = written w
          \<and> fields_of w' L = fields_of w L
          \<and> fields_of w' \<lparr>entry = length (entries w)\<rparr> = (fields_of w L)(key \<mapsto> v))
       \<and> (\<forall>err. logger_WithError L err w = logger_With L ''error'' (VError err) w)
       \<and> (\<exists>L1 w1 L2 w2.
            logger_With L ''a'' (VInt 1) w = Inr (L1, w1)
          \<and> logger_With L1 ''b'' (VInt 2) w1 = Inr (L2, w2)
          \<and> entry L1 \<noteq> entry L \<and> entry L2 \<noteq> entry L \<and> entry L2 \<noteq> entry L1
          \<and> valid w2 L \<and> valid w2 L1 \<and> valid w2 L2
          \<and> loggers w2 = loggers w \<and> written w2 = written w
          \<and> entries w2 ! entry L = entries w ! entry L
          \<and> fields_of w2 L = fields_of w L
          \<and> fields_of w2 L1 = (fields_of w L)(''a'' \<mapsto> VInt 1)
          \<and> fields_of w2 L2 = (fields_of w L)(''a'' \<mapsto> VInt 1, ''b'' \<mapsto> VInt 2)
          \<and> (\<forall>c stk ctl w3 ln.
                logger_call L c stk w2 = Inr (ctl, w3) \<and> ln \<in> set (new_lines w2 w3)
                \<longrightarrow> line_fields ln ''b'' = fields_of w L ''b'')
          \<and> (\<forall>c stk ctl w3 ln.
                logger_call L1 c stk w2 = Inr (ctl, w3) \<and> ln \<in> set (new_lines w2 w3)
                \<longrightarrow> line_fields ln ''b'' = fields_of w L ''b''))"
proof -
  from assms have e: "entry L < length (entries w)" by (simp add: valid_def)
  have gen: "\<forall>key v. \<exists>w'.
            logger_With L key v w = Inr (\<lparr>entry = length (entries w)\<rparr>, w')
          \<and> entry L < length (entries w)
          \<and> take (length (entries w)) (entries w') = entries w
          \<and> loggers w' = loggers w \<and> written w' = written w
          \<and> fields_of w' L = fields_of w L
          \<and> fields_of w' \<lparr>entry = length (entries w)\<rparr> = (fields_of w L)(key \<mapsto> v)"
    using e by (simp add: logger_With_eq [OF assms] fields_of_def nth_append)
  have err: "\<forall>err. logger_WithError L err w = logger_With L ''error'' (VError err) w"
    by (simp add: logger_WithError_eq)
  define L1 where "L1 = \<lparr>entry = length (entries w)\<rparr>"
  define w1 where
    "w1 = w\<lparr>entries := entries w @
             [(entries w ! entry L)\<lparr>Data := (fields_of w L)(''a'' \<mapsto> VInt 1)\<rparr>]\<rparr>"
  define L2 where "L2 = \<lparr>entry = length (entries w1)\<rparr>"
  define w2 where
    "w2 = w1\<lparr>entries := entries w1 @
             [(entries w1 ! entry L1)\<lparr>Data := (fields_of w1 L1)(''b'' \<mapsto> VInt 2)\<rparr>]\<rparr>"
  have v1: "valid w1 L1" unfolding w1_def L1_def by (rule valid_new [OF assms])
  have vL1: "valid w1 L" unfolding w1_def by (rule valid_extend [OF assms])
  have vL2: "valid w2 L" unfolding w2_def by (rule valid_extend [OF vL1])
  have v12: "valid w2 L1" unfolding w2_def by (rule valid_extend [OF v1])
  have a: "logger_With L ''a'' (VInt 1) w = Inr (L1, w1)"
    unfolding w1_def L1_def by (rule logger_With_eq [OF assms])
  have b: "logger_With L1 ''b'' (VInt 2) w1 = Inr (L2, w2)"
    unfolding w2_def L2_def by (rule logger_With_eq [OF v1])
  have fL_1: "fields_of w1 L = fields_of w L"
    unfolding w1_def by (rule fields_of_extend [OF assms])
  have fL: "fields_of w2 L = fields_of w L"
    unfolding w2_def by (simp only: fields_of_extend [OF vL1] fL_1)
  have fL1_1: "fields_of w1 L1 = (fields_of w L)(''a'' \<mapsto> VInt 1)"
    unfolding w1_def L1_def by (simp add: fields_of_new)
  have fL1: "fields_of w2 L1 = (fields_of w L)(''a'' \<mapsto> VInt 1)"
    unfolding w2_def by (simp only: fields_of_extend [OF v1] fL1_1)
  have fL2: "fields_of w2 L2 = (fields_of w L)(''a'' \<mapsto> VInt 1, ''b'' \<mapsto> VInt 2)"
    unfolding w2_def L2_def by (simp add: fields_of_new fL1_1)
  have v22: "valid w2 L2" unfolding w2_def L2_def by (rule valid_new [OF v1])
  have fr: "loggers w2 = loggers w \<and> written w2 = written w"
    by (simp add: w2_def w1_def)
  have len1: "length (entries w1) = Suc (length (entries w))"
    by (simp add: w1_def)
  have eL: "entries w2 ! entry L = entries w ! entry L"
    using e by (simp add: w2_def w1_def nth_append)
  have ne: "entry L1 \<noteq> entry L \<and> entry L2 \<noteq> entry L \<and> entry L2 \<noteq> entry L1"
    using e by (simp add: L1_def L2_def len1)
  have cL: "\<forall>c stk ctl w3 ln.
                logger_call L c stk w2 = Inr (ctl, w3) \<and> ln \<in> set (new_lines w2 w3)
                \<longrightarrow> line_fields ln ''b'' = fields_of w L ''b''"
  proof (intro allI impI)
    fix c stk ctl w3 ln
    assume h: "logger_call L c stk w2 = Inr (ctl, w3) \<and> ln \<in> set (new_lines w2 w3)"
    from logger_call_new_lines [OF vL2, of c stk ctl w3 ln] h
    have "line_fields ln = (fields_of w2 L)(''src'' \<mapsto> VString (caller_src stk))" by blast
    then show "line_fields ln ''b'' = fields_of w L ''b''" by (simp add: fL)
  qed
  have cL1: "\<forall>c stk ctl w3 ln.
                logger_call L1 c stk w2 = Inr (ctl, w3) \<and> ln \<in> set (new_lines w2 w3)
                \<longrightarrow> line_fields ln ''b'' = fields_of w L ''b''"
  proof (intro allI impI)
    fix c stk ctl w3 ln
    assume h: "logger_call L1 c stk w2 = Inr (ctl, w3) \<and> ln \<in> set (new_lines w2 w3)"
    from logger_call_new_lines [OF v12, of c stk ctl w3 ln] h
    have "line_fields ln = (fields_of w2 L1)(''src'' \<mapsto> VString (caller_src stk))" by blast
    then show "line_fields ln ''b'' = fields_of w L ''b''" by (simp add: fL1)
  qed
  have "\<exists>L1 w1 L2 w2.
            logger_With L ''a'' (VInt 1) w = Inr (L1, w1)
          \<and> logger_With L1 ''b'' (VInt 2) w1 = Inr (L2, w2)
          \<and> entry L1 \<noteq> entry L \<and> entry L2 \<noteq> entry L \<and> entry L2 \<noteq> entry L1
          \<and> valid w2 L \<and> valid w2 L1 \<and> valid w2 L2
          \<and> loggers w2 = loggers w \<and> written w2 = written w
          \<and> entries w2 ! entry L = entries w ! entry L
          \<and> fields_of w2 L = fields_of w L
          \<and> fields_of w2 L1 = (fields_of w L)(''a'' \<mapsto> VInt 1)
          \<and> fields_of w2 L2 = (fields_of w L)(''a'' \<mapsto> VInt 1, ''b'' \<mapsto> VInt 2)
          \<and> (\<forall>c stk ctl w3 ln.
                logger_call L c stk w2 = Inr (ctl, w3) \<and> ln \<in> set (new_lines w2 w3)
                \<longrightarrow> line_fields ln ''b'' = fields_of w L ''b'')
          \<and> (\<forall>c stk ctl w3 ln.
                logger_call L1 c stk w2 = Inr (ctl, w3) \<and> ln \<in> set (new_lines w2 w3)
                \<longrightarrow> line_fields ln ''b'' = fields_of w L ''b'')"
    using a b ne vL2 v12 v22 fr eL fL fL1 fL2 cL cL1 by blast
  with gen err show ?thesis by blast
qed

lemma fields_of_package_init: "fields_of package_init baseLogger = Map.empty"
  by (simp add: package_init_eq fields_of_def baseLogger_def)

theorem With_is_copy_on_attach_witness:
  "valid package_init baseLogger
   \<and> fields_of package_init baseLogger ''b'' = None
   \<and> (\<exists>L1 w1 L2 w2.
         logger_With baseLogger ''a'' (VInt 1) package_init = Inr (L1, w1)
       \<and> logger_With L1 ''b'' (VInt 2) w1 = Inr (L2, w2)
       \<and> fields_of w2 L2 ''b'' = Some (VInt 2)
       \<and> fields_of w2 L1 ''b'' = None
       \<and> fields_of w2 baseLogger ''b'' = None
       \<and> (\<exists>w3. logger_call baseLogger (Info [VString ''ready''])
                  [(''/home/app/cmd/main.go'', 42)] w2 = Inr (Continues, w3)
              \<and> new_lines w2 w3 \<noteq> []
              \<and> (\<forall>ln \<in> set (new_lines w2 w3). line_fields ln ''b'' = None)))"
proof -
  let ?c = "Info [VString ''ready'']"
  let ?stk = "[(''/home/app/cmd/main.go'', 42)]"
  from With_is_copy_on_attach [OF valid_package_init]
  obtain L1 w1 L2 w2 where
        a: "logger_With baseLogger ''a'' (VInt 1) package_init = Inr (L1, w1)"
    and b: "logger_With L1 ''b'' (VInt 2) w1 = Inr (L2, w2)"
    and v: "valid w2 baseLogger"
    and lg: "loggers w2 = loggers package_init"
    and eL: "entries w2 ! entry baseLogger = entries package_init ! entry baseLogger"
    and fL: "fields_of w2 baseLogger = fields_of package_init baseLogger"
    and fL1: "fields_of w2 L1 = (fields_of package_init baseLogger)(''a'' \<mapsto> VInt 1)"
    and fL2: "fields_of w2 L2
              = (fields_of package_init baseLogger)(''a'' \<mapsto> VInt 1, ''b'' \<mapsto> VInt 2)"
    and cL: "\<forall>c stk ctl w3 ln.
                logger_call baseLogger c stk w2 = Inr (ctl, w3) \<and> ln \<in> set (new_lines w2 w3)
                \<longrightarrow> line_fields ln ''b'' = fields_of package_init baseLogger ''b''"
    by blast
  have d: "Entry_dispatch ?c = (logrus_InfoLevel, Args [VString ''ready''], Continues)" by simp
  have m: "payload_msg (Args [VString ''ready'']) = Inr ''ready''"
    by (simp add: fmt_Sprint_def)
  have lv: "Level_of w2 baseLogger = logrus_InfoLevel"
    using Level_of_package_init by (simp add: Level_of_def lg eL)
  from logger_call_eq [OF v d m, of ?stk]
  obtain w3 where r: "logger_call baseLogger ?c ?stk w2 = Inr (Continues, w3)"
    and wr: "written w3 = written w2 @
               [\<lparr>line_out = Out_of w2 baseLogger, line_level = logrus_InfoLevel,
                 line_msg = ''ready'',
                 line_fields = (fields_of w2 baseLogger)
                                 (''src'' \<mapsto> VString (caller_src ?stk))\<rparr>]"
    by (simp add: lv)
  have ne: "new_lines w2 w3 \<noteq> []" by (simp add: new_lines_def wr)
  from cL r have n: "\<forall>ln \<in> set (new_lines w2 w3). line_fields ln ''b'' = None"
    by (simp add: fields_of_package_init)
  have f0: "fields_of package_init baseLogger ''b'' = None"
    by (simp add: fields_of_package_init)
  have f2: "fields_of w2 L2 ''b'' = Some (VInt 2)" by (simp add: fL2)
  have f1: "fields_of w2 L1 ''b'' = None" by (simp add: fL1 fields_of_package_init)
  have f: "fields_of w2 baseLogger ''b'' = None" by (simp add: fL fields_of_package_init)
  from valid_package_init f0 a b f2 f1 f r ne n show ?thesis by blast
qed

subsection \<open>Level and output\<close>

lemma unat_ucast_Level: "unat (ucast (T :: Level) :: logrus_Level) = unat T"
proof -
  have "uint (ucast T :: logrus_Level) = uint T"
    by (rule uint_up_ucast) (simp add: is_up)
  then show ?thesis by (simp only: unat_eq_nat_uint)
qed

lemma ucast_Level_le: "(level \<le> (ucast (T :: Level) :: logrus_Level)) = (unat level \<le> unat T)"
  by (simp add: word_le_nat_alt unat_ucast_Level)

lemma ucast_Level_id: "(ucast (ucast (T :: Level) :: logrus_Level) :: Level) = T"
  by (rule ucast_up_ucast_id) (simp add: is_up)

lemma logger_SetLevel_eq:
  assumes "valid w l"
  shows "logger_SetLevel l T w =
         Inr (w\<lparr>loggers := (loggers w)
                [Logger (entries w ! entry l) :=
                   (loggers w ! Logger (entries w ! entry l))\<lparr>Logger_Level := ucast T\<rparr>]\<rparr>)"
  using assms by (simp add: logger_SetLevel_def deref_Entry_def deref_Logger_def valid_def)

lemma logger_SetOut_eq:
  assumes "valid w l"
  shows "logger_SetOut l out w =
         Inr (w\<lparr>loggers := (loggers w)
                [Logger (entries w ! entry l) :=
                   (loggers w ! Logger (entries w ! entry l))\<lparr>Logger_Out := out\<rparr>]\<rparr>)"
  using assms by (simp add: logger_SetOut_def deref_Entry_def deref_Logger_def valid_def)

lemma SetLevel_eq_logger_SetLevel: "SetLevel T w = logger_SetLevel baseLogger T w"
  by (simp add: SetLevel_def logger_SetLevel_def)

lemma SetOut_eq_logger_SetOut: "SetOut out w = logger_SetOut baseLogger out w"
  by (simp add: SetOut_def logger_SetOut_def)

text \<open>Storing into a logger keeps every handle valid and bound as it was.\<close>

lemma valid_loggers_update:
  "valid w l \<Longrightarrow> valid (w\<lparr>loggers := (loggers w)[g := x]\<rparr>) l"
  by (simp add: valid_def)

lemma shares_default_loggers_update:
  "shares_default w l \<Longrightarrow> shares_default (w\<lparr>loggers := (loggers w)[g := x]\<rparr>) l"
  by (simp add: shares_default_def valid_def)

lemma Level_of_same_logger:
  assumes "valid w l2" and "Logger (entries w ! entry l2) = g"
  shows "Level_of (w\<lparr>loggers := (loggers w)[g := (loggers w ! g)\<lparr>Logger_Level := v\<rparr>]\<rparr>) l2 = v"
  using assms by (simp add: Level_of_def valid_def)

lemma Out_of_same_logger:
  assumes "valid w l2" and "Logger (entries w ! entry l2) = g"
  shows "Out_of (w\<lparr>loggers := (loggers w)[g := (loggers w ! g)\<lparr>Logger_Out := v\<rparr>]\<rparr>) l2 = v"
  using assms by (simp add: Out_of_def valid_def)

lemma GetLevel_eq:
  "valid w baseLogger \<Longrightarrow> GetLevel w = Inr (ucast (Level_of w baseLogger))"
  by (simp add: GetLevel_def deref_Entry_def deref_Logger_def valid_def Level_of_def)

text \<open>
  C2: after \<open>SetLevel(T)\<close>, a call that logs at \<open>level\<close> writes its line if
  and only if \<open>level\<close> is at most \<open>T\<close> in the numbering Panic = 0 to
  Trace = 6, and writes nothing otherwise. The method does not look at the
  level: it stamps the caller (an entry is allocated) and hands the call to
  the engine whatever the level is, and the escalation of the call is the
  same whether the line was written or dropped. The functions of the package
  are the methods of the base logger.
\<close>

theorem level_gate:
  assumes "valid w l" and "Entry_dispatch c = (level, p, ctl)" and "payload_msg p = Inr msg"
  shows "\<exists>w1 w2.
           logger_SetLevel l T w = Inr w1
         \<and> logger_call l c stk w1 = Inr (ctl, w2)
         \<and> (new_lines w1 w2 \<noteq> [] \<longleftrightarrow> unat level \<le> unat T)
         \<and> length (new_lines w1 w2) = (if unat level \<le> unat T then 1 else 0)
         \<and> (\<forall>ln \<in> set (new_lines w1 w2). line_level ln = level \<and> line_msg ln = msg)
         \<and> length (entries w2) = Suc (length (entries w1))
         \<and> logger_call l c stk w1
             = (case sourced l ((log_go, method_line c) # stk) w1 of
                  Inl f \<Rightarrow> Inl f
                | Inr (e, w') \<Rightarrow> Entry_call e c w')
         \<and> SetLevel T w = logger_SetLevel baseLogger T w
         \<and> func_call c stk w1 = logger_call baseLogger c stk w1"
proof -
  define g where "g = Logger (entries w ! entry l)"
  define w1 where
    "w1 = w\<lparr>loggers := (loggers w)[g := (loggers w ! g)\<lparr>Logger_Level := ucast T\<rparr>]\<rparr>"
  have s: "logger_SetLevel l T w = Inr w1"
    unfolding w1_def g_def by (rule logger_SetLevel_eq [OF assms(1)])
  have v1: "valid w1 l"
    unfolding w1_def by (rule valid_loggers_update [OF assms(1)])
  have lv: "Level_of w1 l = ucast T"
    unfolding w1_def using assms(1) by (rule Level_of_same_logger) (simp add: g_def)
  note eq = logger_call_eq [OF v1 assms(2) assms(3), of stk]
  let ?ent = "(entries w1 ! entry l)
                \<lparr>Data := (fields_of w1 l)(''src'' \<mapsto> VString (caller_src stk))\<rparr>"
  let ?ln = "\<lparr>line_out = Out_of w1 l, line_level = level, line_msg = msg,
              line_fields = (fields_of w1 l)(''src'' \<mapsto> VString (caller_src stk))\<rparr>"
  have rest: "logger_call l c stk w1
             = (case sourced l ((log_go, method_line c) # stk) w1 of
                  Inl f \<Rightarrow> Inl f
                | Inr (e, w') \<Rightarrow> Entry_call e c w')
         \<and> SetLevel T w = logger_SetLevel baseLogger T w
         \<and> func_call c stk w1 = logger_call baseLogger c stk w1"
    by (simp add: logger_call_def SetLevel_eq_logger_SetLevel func_call_eq_logger_call)
  show ?thesis
  proof (cases "unat level \<le> unat T")
    case True
    define w2 where "w2 = w1\<lparr>entries := entries w1 @ [?ent], written := written w1 @ [?ln]\<rparr>"
    have r: "logger_call l c stk w1 = Inr (ctl, w2)"
      using eq True by (simp add: lv ucast_Level_le w2_def)
    have n: "new_lines w1 w2 = [?ln]" by (simp add: new_lines_def w2_def)
    have e: "length (entries w2) = Suc (length (entries w1))" by (simp add: w2_def)
    from s r n e True rest show ?thesis by auto
  next
    case False
    define w2 where "w2 = w1\<lparr>entries := entries w1 @ [?ent]\<rparr>"
    have r: "logger_call l c stk w1 = Inr (ctl, w2)"
      using eq False by (simp add: lv ucast_Level_le w2_def)
    have n: "new_lines w1 w2 = []" by (simp add: new_lines_def w2_def)
    have e: "length (entries w2) = Suc (length (entries w1))" by (simp add: w2_def)
    from s r n e False rest show ?thesis by auto
  qed
qed

text \<open>
  After \<open>SetLevel(WarnLevel)\<close> on the initialised package, \<open>Info\<close> writes
  nothing and \<open>Error\<close> writes its line.
\<close>

theorem level_gate_witness:
  "valid package_init baseLogger
   \<and> (\<exists>w1 w2. SetLevel WarnLevel package_init = Inr w1
         \<and> func_call (Info [VString ''up'']) [(''/home/app/cmd/main.go'', 42)] w1
             = Inr (Continues, w2)
         \<and> new_lines w1 w2 = [])
   \<and> (\<exists>w1 w2. SetLevel WarnLevel package_init = Inr w1
         \<and> func_call (Error [VString ''down'']) [(''/home/app/cmd/main.go'', 43)] w1
             = Inr (Continues, w2)
         \<and> length (new_lines w1 w2) = 1
         \<and> (\<forall>ln \<in> set (new_lines w1 w2).
               line_level ln = logrus_ErrorLevel \<and> line_msg ln = ''down''))"
proof -
  have di: "Entry_dispatch (Info [VString ''up''])
            = (logrus_InfoLevel, Args [VString ''up''], Continues)" by simp
  have mi: "payload_msg (Args [VString ''up'']) = Inr ''up''" by (simp add: fmt_Sprint_def)
  have de: "Entry_dispatch (Error [VString ''down''])
            = (logrus_ErrorLevel, Args [VString ''down''], Continues)" by simp
  have me: "payload_msg (Args [VString ''down'']) = Inr ''down''" by (simp add: fmt_Sprint_def)
  have li: "\<not> unat logrus_InfoLevel \<le> unat WarnLevel"
    by (simp add: logrus_InfoLevel_def WarnLevel_def)
  have le: "unat logrus_ErrorLevel \<le> unat WarnLevel"
    by (simp add: logrus_ErrorLevel_def WarnLevel_def)
  from level_gate [OF valid_package_init di mi, of WarnLevel "[(''/home/app/cmd/main.go'', 42)]"]
  obtain w1 w2 where
        "logger_SetLevel baseLogger WarnLevel package_init = Inr w1"
    and "logger_call baseLogger (Info [VString ''up'']) [(''/home/app/cmd/main.go'', 42)] w1
         = Inr (Continues, w2)"
    and "length (new_lines w1 w2) = (if unat logrus_InfoLevel \<le> unat WarnLevel then 1 else 0)"
    and "SetLevel WarnLevel package_init = logger_SetLevel baseLogger WarnLevel package_init"
    and "func_call (Info [VString ''up'']) [(''/home/app/cmd/main.go'', 42)] w1
         = logger_call baseLogger (Info [VString ''up'']) [(''/home/app/cmd/main.go'', 42)] w1"
    by blast
  with li have a: "\<exists>w1 w2. SetLevel WarnLevel package_init = Inr w1
         \<and> func_call (Info [VString ''up'']) [(''/home/app/cmd/main.go'', 42)] w1
             = Inr (Continues, w2)
         \<and> new_lines w1 w2 = []"
    by auto
  from level_gate [OF valid_package_init de me, of WarnLevel "[(''/home/app/cmd/main.go'', 43)]"]
  obtain w1 w2 where
        "logger_SetLevel baseLogger WarnLevel package_init = Inr w1"
    and "logger_call baseLogger (Error [VString ''down'']) [(''/home/app/cmd/main.go'', 43)] w1
         = Inr (Continues, w2)"
    and "length (new_lines w1 w2) = (if unat logrus_ErrorLevel \<le> unat WarnLevel then 1 else 0)"
    and "\<forall>ln \<in> set (new_lines w1 w2).
           line_level ln = logrus_ErrorLevel \<and> line_msg ln = ''down''"
    and "SetLevel WarnLevel package_init = logger_SetLevel baseLogger WarnLevel package_init"
    and "func_call (Error [VString ''down'']) [(''/home/app/cmd/main.go'', 43)] w1
         = logger_call baseLogger (Error [VString ''down'']) [(''/home/app/cmd/main.go'', 43)] w1"
    by blast
  with le have b: "\<exists>w1 w2. SetLevel WarnLevel package_init = Inr w1
         \<and> func_call (Error [VString ''down'']) [(''/home/app/cmd/main.go'', 43)] w1
             = Inr (Continues, w2)
         \<and> length (new_lines w1 w2) = 1
         \<and> (\<forall>ln \<in> set (new_lines w1 w2).
               line_level ln = logrus_ErrorLevel \<and> line_msg ln = ''down'')"
    by auto
  from valid_package_init a b show ?thesis by blast
qed

lemma New_eq:
  "New w = (\<lparr>entry = length (entries w)\<rparr>,
            w\<lparr>entries := entries w @ [\<lparr>Logger = origLogger, Data = Map.empty\<rparr>]\<rparr>)"
  by (simp add: New_def logrus_NewEntry_def)

lemma shares_default_extend:
  "shares_default w l \<Longrightarrow> shares_default (w\<lparr>entries := entries w @ [ent]\<rparr>) l"
  by (simp add: shares_default_def valid_def nth_append)

lemma shares_default_New:
  "shares_default w l \<Longrightarrow>
   shares_default (w\<lparr>entries := entries w @ [\<lparr>Logger = origLogger, Data = d\<rparr>]\<rparr>)
                  \<lparr>entry = length (entries w)\<rparr>"
  by (simp add: shares_default_def valid_def)

text \<open>What one sharing handle stores, another sharing handle reads.\<close>

lemma shared_SetLevel:
  assumes "shares_default w l1" and "shares_default w l2"
  shows "\<exists>w2. logger_SetLevel l1 T w = Inr w2 \<and> Level_of w2 l2 = ucast T
              \<and> shares_default w2 l1 \<and> shares_default w2 l2
              \<and> entries w2 = entries w \<and> written w2 = written w"
proof -
  from assms have v1: "valid w l1" and v2: "valid w l2"
    and g1: "Logger (entries w ! entry l1) = origLogger"
    and g2: "Logger (entries w ! entry l2) = origLogger"
    by (simp_all add: shares_default_def)
  define w2 where
    "w2 = w\<lparr>loggers := (loggers w)[origLogger :=
                            (loggers w ! origLogger)\<lparr>Logger_Level := ucast T\<rparr>]\<rparr>"
  have s: "logger_SetLevel l1 T w = Inr w2"
    using logger_SetLevel_eq [OF v1, of T] by (simp add: g1 w2_def)
  have l: "Level_of w2 l2 = ucast T"
    unfolding w2_def by (rule Level_of_same_logger [OF v2 g2])
  have "shares_default w2 l1" "shares_default w2 l2"
    unfolding w2_def by (rule shares_default_loggers_update, rule assms)+
  moreover have "entries w2 = entries w \<and> written w2 = written w" by (simp add: w2_def)
  ultimately show ?thesis using s l by blast
qed

lemma shared_SetOut:
  assumes "shares_default w l1" and "shares_default w l2"
  shows "\<exists>w2. logger_SetOut l1 out w = Inr w2 \<and> Out_of w2 l2 = out
              \<and> shares_default w2 l1 \<and> shares_default w2 l2
              \<and> entries w2 = entries w \<and> written w2 = written w"
proof -
  from assms have v1: "valid w l1" and v2: "valid w l2"
    and g1: "Logger (entries w ! entry l1) = origLogger"
    and g2: "Logger (entries w ! entry l2) = origLogger"
    by (simp_all add: shares_default_def)
  define w2 where
    "w2 = w\<lparr>loggers := (loggers w)[origLogger :=
                            (loggers w ! origLogger)\<lparr>Logger_Out := out\<rparr>]\<rparr>"
  have s: "logger_SetOut l1 out w = Inr w2"
    using logger_SetOut_eq [OF v1, of out] by (simp add: g1 w2_def)
  have l: "Out_of w2 l2 = out"
    unfolding w2_def by (rule Out_of_same_logger [OF v2 g2])
  have "shares_default w2 l1" "shares_default w2 l2"
    unfolding w2_def by (rule shares_default_loggers_update, rule assms)+
  moreover have "entries w2 = entries w \<and> written w2 = written w" by (simp add: w2_def)
  ultimately show ?thesis using s l by blast
qed

lemma shares_default_With:
  assumes "shares_default w l"
  shows "\<exists>l' w'. logger_With l key v w = Inr (l', w')
           \<and> shares_default w' l' \<and> shares_default w' l"
proof -
  from assms have v: "valid w l" and g: "Logger (entries w ! entry l) = origLogger"
    by (simp_all add: shares_default_def)
  have "shares_default
          (w\<lparr>entries := entries w @ [(entries w ! entry l)\<lparr>Data := (fields_of w l)(key \<mapsto> v)\<rparr>]\<rparr>)
          \<lparr>entry = length (entries w)\<rparr>"
    using v g by (simp add: shares_default_def valid_def)
  with logger_With_eq [OF v, of key v] shares_default_extend [OF assms] show ?thesis by blast
qed

text \<open>
  C8: level and output belong to the one logger \<open>origLogger\<close>, which the base
  logger and every handle made by \<open>New\<close>, and every handle derived from them
  by \<open>With\<close>, are bound to. A level or output set through the functions of
  the package is what a handle made by \<open>New\<close> reads at once, and one set
  through that handle is what the base logger and \<open>GetLevel\<close> read; the same
  holds between any two handles that share the default engine.
\<close>

theorem configuration_is_shared:
  assumes "initialised w"
  shows "\<exists>h w1. New w = (h, w1)
         \<and> shares_default w1 h \<and> shares_default w1 baseLogger
         \<and> (\<forall>T. \<exists>w2. SetLevel T w1 = Inr w2 \<and> Level_of w2 h = ucast T \<and> GetLevel w2 = Inr T)
         \<and> (\<forall>T. \<exists>w2. logger_SetLevel h T w1 = Inr w2
                  \<and> Level_of w2 baseLogger = ucast T \<and> GetLevel w2 = Inr T)
         \<and> (\<forall>out. \<exists>w2. SetOut out w1 = Inr w2 \<and> Out_of w2 h = out)
         \<and> (\<forall>out. \<exists>w2. logger_SetOut h out w1 = Inr w2 \<and> Out_of w2 baseLogger = out)
         \<and> (\<forall>l1 l2 T. shares_default w1 l1 \<and> shares_default w1 l2
               \<longrightarrow> (\<exists>w2. logger_SetLevel l1 T w1 = Inr w2 \<and> Level_of w2 l2 = ucast T
                         \<and> shares_default w2 l1 \<and> shares_default w2 l2))
         \<and> (\<forall>l1 l2 out. shares_default w1 l1 \<and> shares_default w1 l2
               \<longrightarrow> (\<exists>w2. logger_SetOut l1 out w1 = Inr w2 \<and> Out_of w2 l2 = out
                         \<and> shares_default w2 l1 \<and> shares_default w2 l2))
         \<and> (\<forall>l key v. shares_default w1 l
               \<longrightarrow> (\<exists>l' w'. logger_With l key v w1 = Inr (l', w')
                         \<and> shares_default w' l' \<and> shares_default w' l))"
proof -
  define h where "h = \<lparr>entry = length (entries w)\<rparr>"
  define w1 where "w1 = w\<lparr>entries := entries w @ [\<lparr>Logger = origLogger, Data = Map.empty\<rparr>]\<rparr>"
  from assms have b: "shares_default w baseLogger" by (simp add: initialised_def)
  have n: "New w = (h, w1)" by (simp add: New_eq h_def w1_def)
  have sh: "shares_default w1 h"
    unfolding w1_def h_def by (rule shares_default_New [OF b])
  have sb: "shares_default w1 baseLogger"
    unfolding w1_def by (rule shares_default_extend [OF b])
  have get: "\<And>w2 T. shares_default w2 baseLogger \<Longrightarrow> Level_of w2 baseLogger = ucast T
                \<Longrightarrow> GetLevel w2 = Inr T"
    by (simp add: GetLevel_eq shares_default_def ucast_Level_id)
  have a1: "\<forall>T. \<exists>w2. SetLevel T w1 = Inr w2 \<and> Level_of w2 h = ucast T \<and> GetLevel w2 = Inr T"
  proof
    fix T
    from shared_SetLevel [OF sb sh, of T] obtain w2 where
      s: "logger_SetLevel baseLogger T w1 = Inr w2" and l: "Level_of w2 h = ucast T"
      and sb2: "shares_default w2 baseLogger" by blast
    from shared_SetLevel [OF sb sb, of T] s have "Level_of w2 baseLogger = ucast T" by auto
    with get [OF sb2] s l
    show "\<exists>w2. SetLevel T w1 = Inr w2 \<and> Level_of w2 h = ucast T \<and> GetLevel w2 = Inr T"
      by (auto simp: SetLevel_eq_logger_SetLevel)
  qed
  have a2: "\<forall>T. \<exists>w2. logger_SetLevel h T w1 = Inr w2
                  \<and> Level_of w2 baseLogger = ucast T \<and> GetLevel w2 = Inr T"
  proof
    fix T
    from shared_SetLevel [OF sh sb, of T] obtain w2 where
      s: "logger_SetLevel h T w1 = Inr w2" and l: "Level_of w2 baseLogger = ucast T"
      and sb2: "shares_default w2 baseLogger" by blast
    with get [OF sb2 l]
    show "\<exists>w2. logger_SetLevel h T w1 = Inr w2
                  \<and> Level_of w2 baseLogger = ucast T \<and> GetLevel w2 = Inr T" by blast
  qed
  have a3: "\<forall>out. \<exists>w2. SetOut out w1 = Inr w2 \<and> Out_of w2 h = out"
    using shared_SetOut [OF sb sh] by (simp add: SetOut_eq_logger_SetOut) blast
  have a4: "\<forall>out. \<exists>w2. logger_SetOut h out w1 = Inr w2 \<and> Out_of w2 baseLogger = out"
    using shared_SetOut [OF sh sb] by blast
  have a5: "\<forall>l1 l2 T. shares_default w1 l1 \<and> shares_default w1 l2
               \<longrightarrow> (\<exists>w2. logger_SetLevel l1 T w1 = Inr w2 \<and> Level_of w2 l2 = ucast T
                         \<and> shares_default w2 l1 \<and> shares_default w2 l2)"
    using shared_SetLevel by blast
  have a6: "\<forall>l1 l2 out. shares_default w1 l1 \<and> shares_default w1 l2
               \<longrightarrow> (\<exists>w2. logger_SetOut l1 out w1 = Inr w2 \<and> Out_of w2 l2 = out
                         \<and> shares_default w2 l1 \<and> shares_default w2 l2)"
    using shared_SetOut by blast
  have a7: "\<forall>l key v. shares_default w1 l
               \<longrightarrow> (\<exists>l' w'. logger_With l key v w1 = Inr (l', w')
                         \<and> shares_default w' l' \<and> shares_default w' l)"
    using shares_default_With by blast
  from n sh sb a1 a2 a3 a4 a5 a6 a7 show ?thesis by blast
qed

theorem configuration_is_shared_witness:
  "initialised package_init
   \<and> Level_of package_init baseLogger = logrus_InfoLevel
   \<and> Out_of package_init baseLogger = Stderr
   \<and> (\<exists>h w1. New package_init = (h, w1)
         \<and> (\<exists>w2. SetLevel DebugLevel w1 = Inr w2 \<and> Level_of w2 h = logrus_DebugLevel
                   \<and> GetLevel w2 = Inr DebugLevel)
         \<and> (\<exists>w2. logger_SetLevel h ErrorLevel w1 = Inr w2
                   \<and> Level_of w2 baseLogger = logrus_ErrorLevel \<and> GetLevel w2 = Inr ErrorLevel)
         \<and> (\<exists>w2. SetOut Stdout w1 = Inr w2 \<and> Out_of w2 h = Stdout)
         \<and> (\<exists>w2. logger_SetOut h Stdout w1 = Inr w2 \<and> Out_of w2 baseLogger = Stdout))"
proof -
  have d: "(ucast DebugLevel :: logrus_Level) = logrus_DebugLevel"
    by (simp add: DebugLevel_def logrus_DebugLevel_def)
  have e: "(ucast ErrorLevel :: logrus_Level) = logrus_ErrorLevel"
    by (simp add: ErrorLevel_def logrus_ErrorLevel_def)
  have o: "Out_of package_init baseLogger = Stderr"
    by (simp add: package_init_eq Out_of_def baseLogger_def)
  from configuration_is_shared [OF initialised_package_init]
  obtain h w1 where n: "New package_init = (h, w1)"
    and a1: "\<forall>T. \<exists>w2. SetLevel T w1 = Inr w2 \<and> Level_of w2 h = ucast T \<and> GetLevel w2 = Inr T"
    and a2: "\<forall>T. \<exists>w2. logger_SetLevel h T w1 = Inr w2
                  \<and> Level_of w2 baseLogger = ucast T \<and> GetLevel w2 = Inr T"
    and a3: "\<forall>out. \<exists>w2. SetOut out w1 = Inr w2 \<and> Out_of w2 h = out"
    and a4: "\<forall>out. \<exists>w2. logger_SetOut h out w1 = Inr w2 \<and> Out_of w2 baseLogger = out"
    by blast
  from a1 [rule_format, of DebugLevel]
  have b1: "\<exists>w2. SetLevel DebugLevel w1 = Inr w2 \<and> Level_of w2 h = logrus_DebugLevel
                   \<and> GetLevel w2 = Inr DebugLevel" by (simp only: d)
  from a2 [rule_format, of ErrorLevel]
  have b2: "\<exists>w2. logger_SetLevel h ErrorLevel w1 = Inr w2
                   \<and> Level_of w2 baseLogger = logrus_ErrorLevel \<and> GetLevel w2 = Inr ErrorLevel"
    by (simp only: e)
  from a3 [rule_format, of Stdout] a4 [rule_format, of Stdout]
  have b3: "\<exists>w2. SetOut Stdout w1 = Inr w2 \<and> Out_of w2 h = Stdout"
    and b4: "\<exists>w2. logger_SetOut h Stdout w1 = Inr w2 \<and> Out_of w2 baseLogger = Stdout"
    by blast+
  from initialised_package_init Level_of_package_init o n b1 b2 b3 b4 show ?thesis by blast
qed

subsection \<open>Init\<close>

lemma Clean_loop_plain:
  assumes "CHR ''/'' \<notin> set (c # cs)" and "c \<noteq> CHR ''.''"
  shows "Clean_loop False (c # cs) [] 0 = c # cs"
proof -
  have a: "\<forall>x \<in> set cs. x \<noteq> CHR ''/''" using assms(1) by auto
  have d: "dropWhile (\<lambda>x. x \<noteq> CHR ''/'') cs = []"
    using a by (simp add: dropWhile_eq_Nil_conv)
  have t: "takeWhile (\<lambda>x. x \<noteq> CHR ''/'') cs = cs"
    using a by (simp add: takeWhile_eq_all_conv)
  from assms have "c \<noteq> CHR ''/''" by auto
  with assms(2)
  have "Clean_loop False (c # cs) [] 0
        = Clean_loop False (dropWhile (\<lambda>x. x \<noteq> CHR ''/'') cs)
            (c # takeWhile (\<lambda>x. x \<noteq> CHR ''/'') cs) 0"
    by simp
  also have "\<dots> = c # cs" unfolding d t by simp
  finally show ?thesis .
qed

lemma path_Join_current_dir:
  assumes "CHR ''/'' \<notin> set (c # cs)" and "c \<noteq> CHR ''.''"
  shows "path_Join [''./'', c # cs] = c # cs"
proof -
  have "join_buf [] [''./'', c # cs] = ''.//'' @ c # cs" by simp
  moreover have "Clean (''.//'' @ c # cs) = c # cs"
    using Clean_loop_plain [OF assms] by (simp add: Clean_def)
  ultimately show ?thesis by (simp add: path_Join_def)
qed

lemma random_String_Lowercase:
  "length (random_String draw n Lowercase) = n
   \<and> set (random_String draw n Lowercase) \<subseteq> set Lowercase"
proof -
  have "\<And>k. Lowercase ! (draw k mod length Lowercase) \<in> set Lowercase"
    by (rule nth_mem) (simp add: Lowercase_def)
  then show ?thesis by (auto simp: random_String_def)
qed

lemma Lowercase_chars: "c \<in> set Lowercase \<Longrightarrow> c \<noteq> CHR ''/'' \<and> c \<noteq> CHR ''.''"
  by (auto simp: Lowercase_def)

lemma fallback_name:
  "\<exists>name. random_String draw 8 Lowercase @ ''.log'' = name @ ''.log''
     \<and> length name = 8 \<and> set name \<subseteq> set Lowercase
     \<and> path_Join [''./'', name @ ''.log''] = name @ ''.log''"
proof -
  let ?n = "random_String draw 8 Lowercase"
  from random_String_Lowercase [of draw 8]
  have l: "length ?n = 8" and s: "set ?n \<subseteq> set Lowercase" by auto
  from l obtain c cs where n: "?n = c # cs" by (cases ?n) auto
  have c: "c \<noteq> CHR ''.''" using s n Lowercase_chars [of c] by auto
  have "CHR ''/'' \<notin> set (c # (cs @ ''.log''))"
    using s n Lowercase_chars by auto
  from path_Join_current_dir [OF this c] n
  have "path_Join [''./'', ?n @ ''.log''] = ?n @ ''.log''" by simp
  with l s show ?thesis by blast
qed

lemma Level_of_Out_update:
  "Level_of (w\<lparr>loggers := (loggers w)[g := (loggers w ! g)\<lparr>Logger_Out := out\<rparr>]\<rparr>) l
   = Level_of w l"
  by (cases "g < length (loggers w)")
     (simp_all add: Level_of_def nth_list_update list_update_beyond)

lemma ParseLevel_fits:
  "(ucast (ucast (fst (logrus_ParseLevel name)) :: Level) :: logrus_Level)
   = fst (logrus_ParseLevel name)"
  by (simp add: logrus_ParseLevel_def Let_def logrus_PanicLevel_def logrus_FatalLevel_def
        logrus_ErrorLevel_def logrus_WarnLevel_def logrus_InfoLevel_def logrus_DebugLevel_def
        logrus_TraceLevel_def)

lemma InfoLevel_fits: "(ucast logrus_InfoLevel :: Level) = InfoLevel"
  by (simp add: logrus_InfoLevel_def InfoLevel_def)

lemma InfoLevel_up: "(ucast InfoLevel :: logrus_Level) = logrus_InfoLevel"
  by (simp add: logrus_InfoLevel_def InfoLevel_def)

text \<open>
  C3: in an initialised package \<open>Init\<close> returns for every configuration and
  every answer of the helpers; it has no error result. When the directory
  cannot be ensured, or the path exists and is not a regular file, the sink's
  file is eight characters of \<open>a\<close> to \<open>z\<close> followed by \<open>.log\<close>, with no
  slash: a file of the current directory. Otherwise it is the joined
  directory and base name. When the level name does not parse the level is
  Info, otherwise the level parsed. The output becomes the standard output
  and the sink together.
\<close>

theorem Init_never_fails:
  assumes "initialised w"
  shows "\<exists>w' fname.
           Init d config w = Inr w'
         \<and> Level_of w' baseLogger
             = (if snd (logrus_ParseLevel (Level config)) = None
                then fst (logrus_ParseLevel (Level config)) else logrus_InfoLevel)
         \<and> (snd (logrus_ParseLevel (Level config)) \<noteq> None \<longrightarrow> GetLevel w' = Inr InfoLevel)
         \<and> Out_of w' baseLogger
             = MultiWriter [Stdout, Lumberjack
                 \<lparr>Filename = fname, MaxSize = 500, MaxBackups = 3, MaxAge = 28,
                  Compress = True, LocalTime = True\<rparr>]
         \<and> (file_EnsureDirRW d (file_Dir d (File config)) \<noteq> None
              \<or> (file_IsExist d (File config) \<and> \<not> file_IsFile d (File config))
              \<longrightarrow> fname = path_Join [''./'', random_String (random_draw d) 8 Lowercase @ ''.log'']
                  \<and> (\<exists>name. fname = name @ ''.log'' \<and> length name = 8
                        \<and> set name \<subseteq> set Lowercase \<and> CHR ''/'' \<notin> set fname))
         \<and> (\<not> (file_EnsureDirRW d (file_Dir d (File config)) \<noteq> None
                 \<or> (file_IsExist d (File config) \<and> \<not> file_IsFile d (File config)))
              \<longrightarrow> fname = path_Join [file_Dir d (File config), file_Basename d (File config)])
         \<and> initialised w' \<and> entries w' = entries w \<and> written w' = written w"
proof -
  define bad where
    "bad = (file_EnsureDirRW d (file_Dir d (File config)) \<noteq> None
            \<or> (file_IsExist d (File config) \<and> \<not> file_IsFile d (File config)))"
  define target where
    "target = (if bad then (''./'', random_String (random_draw d) 8 Lowercase @ ''.log'')
               else (file_Dir d (File config), file_Basename d (File config)))"
  define level where
    "level = (case logrus_ParseLevel (Level config) of
                (level, err) \<Rightarrow> if err \<noteq> None then logrus_InfoLevel else level)"
  have level_eq: "level = (if snd (logrus_ParseLevel (Level config)) = None
              then fst (logrus_ParseLevel (Level config)) else logrus_InfoLevel)"
    by (cases "logrus_ParseLevel (Level config)") (simp add: level_def)
  define out where
    "out = MultiWriter [Stdout, Lumberjack
             \<lparr>Filename = path_Join [fst target, snd target], MaxSize = 500, MaxBackups = 3,
              MaxAge = 28, Compress = True, LocalTime = True\<rparr>]"
  from assms have b: "shares_default w baseLogger" by (simp add: initialised_def)
  from shared_SetLevel [OF b b, of "ucast level"] obtain w1 where
        s1: "SetLevel (ucast level) w = Inr w1"
    and l1: "Level_of w1 baseLogger = ucast (ucast level :: Level)"
    and b1: "shares_default w1 baseLogger"
    and f1: "entries w1 = entries w \<and> written w1 = written w"
    by (auto simp: SetLevel_eq_logger_SetLevel)
  from shared_SetOut [OF b1 b1, of out] obtain w2 where
        s2: "SetOut out w1 = Inr w2"
    and o2: "Out_of w2 baseLogger = out"
    and b2: "shares_default w2 baseLogger"
    and f2: "entries w2 = entries w1 \<and> written w2 = written w1"
    by (auto simp: SetOut_eq_logger_SetOut)
  from b1 have v1: "valid w1 baseLogger" by (simp add: shares_default_def)
  have "Level_of w2 baseLogger = Level_of w1 baseLogger"
    using s2 logger_SetOut_eq [OF v1, of out]
    by (auto simp: SetOut_eq_logger_SetOut Level_of_Out_update)
  moreover have "(ucast (ucast level :: Level) :: logrus_Level) = level"
    by (simp add: level_eq ParseLevel_fits InfoLevel_fits InfoLevel_up)
  ultimately have l2: "Level_of w2 baseLogger = level" using l1 by simp
  have "Init d config w
        = (case SetLevel (ucast level) w of Inl f \<Rightarrow> Inl f | Inr w' \<Rightarrow> SetOut out w')"
    unfolding Init_def Let_def level_def out_def target_def bad_def by (rule refl)
  then have i: "Init d config w = Inr w2"
    using s1 s2 by simp
  have g: "snd (logrus_ParseLevel (Level config)) \<noteq> None \<longrightarrow> GetLevel w2 = Inr InfoLevel"
    using b2 l2 by (simp add: GetLevel_eq shares_default_def level_eq InfoLevel_fits)
  have fb0: "bad \<longrightarrow> path_Join [fst target, snd target]
              = path_Join [''./'', random_String (random_draw d) 8 Lowercase @ ''.log'']"
    by (simp add: target_def)
  have fb: "bad \<longrightarrow> (\<exists>name. path_Join [fst target, snd target] = name @ ''.log''
                      \<and> length name = 8 \<and> set name \<subseteq> set Lowercase
                      \<and> CHR ''/'' \<notin> set (path_Join [fst target, snd target]))"
  proof
    assume bad
    from fallback_name [of "random_draw d"] obtain name where
      n: "random_String (random_draw d) 8 Lowercase @ ''.log'' = name @ ''.log''"
      "length name = 8" "set name \<subseteq> set Lowercase"
      "path_Join [''./'', name @ ''.log''] = name @ ''.log''" by blast
    have "CHR ''/'' \<notin> set (name @ ''.log'')"
      using n(3) Lowercase_chars by auto
    with n \<open>bad\<close> show "\<exists>name. path_Join [fst target, snd target] = name @ ''.log''
                      \<and> length name = 8 \<and> set name \<subseteq> set Lowercase
                      \<and> CHR ''/'' \<notin> set (path_Join [fst target, snd target])"
      by (auto simp: target_def)
  qed
  have ok: "\<not> bad \<longrightarrow> path_Join [fst target, snd target]
                        = path_Join [file_Dir d (File config), file_Basename d (File config)]"
    by (simp add: target_def)
  from b2 have "initialised w2" by (simp add: initialised_def)
  with i l2 g o2 fb0 fb ok f1 f2 show ?thesis
    unfolding level_eq out_def bad_def by (intro exI [of _ w2] exI [of _ "path_Join [fst target, snd target]"]) simp
qed

text \<open>
  The directory cannot be ensured and the level is not a name: the level is
  Info and the sink's file is \<open>dkryfmta.log\<close> for the draws \<open>7 k + 3\<close>.
\<close>

theorem Init_never_fails_witness:
  "initialised package_init
   \<and> (\<exists>w'. Init \<lparr>file_Dir = (\<lambda>p. ''/proc/none''), file_Basename = (\<lambda>p. ''x.log''),
                   file_EnsureDirRW = (\<lambda>p. Some ''permission denied''),
                   file_IsExist = (\<lambda>p. False), file_IsFile = (\<lambda>p. False),
                   random_draw = (\<lambda>k. 7 * k + 3)\<rparr>
                  \<lparr>File = ''/proc/none/x.log'', Level = ''bogus''\<rparr> package_init = Inr w'
          \<and> GetLevel w' = Inr InfoLevel
          \<and> Level_of w' baseLogger = logrus_InfoLevel
          \<and> Out_of w' baseLogger
              = MultiWriter [Stdout, Lumberjack
                  \<lparr>Filename = ''dkryfmta.log'', MaxSize = 500, MaxBackups = 3, MaxAge = 28,
                   Compress = True, LocalTime = True\<rparr>])"
proof -
  let ?d = "\<lparr>file_Dir = (\<lambda>p. ''/proc/none''), file_Basename = (\<lambda>p. ''x.log''),
             file_EnsureDirRW = (\<lambda>p. Some ''permission denied''),
             file_IsExist = (\<lambda>p. False), file_IsFile = (\<lambda>p. False),
             random_draw = (\<lambda>k. 7 * k + 3)\<rparr>"
  let ?c = "\<lparr>File = ''/proc/none/x.log'', Level = ''bogus''\<rparr>"
  have p: "snd (logrus_ParseLevel (Level ?c)) \<noteq> None"
    by (simp add: logrus_ParseLevel_def to_lower_def)
  have e: "file_EnsureDirRW ?d (file_Dir ?d (File ?c)) \<noteq> None" by simp
  have r: "random_String (random_draw ?d) 8 Lowercase = ''dkryfmta''"
    by (simp add: random_String_def Lowercase_def upt_rec [of 0] upt_rec [of "Suc _"])
  have j: "path_Join [''./'', ''dkryfmta.log''] = ''dkryfmta.log''"
    by (rule path_Join_current_dir) simp_all
  from Init_never_fails [OF initialised_package_init, of ?d ?c]
  obtain w' fname where
        i: "Init ?d ?c package_init = Inr w'"
    and l: "Level_of w' baseLogger
             = (if snd (logrus_ParseLevel (Level ?c)) = None
                then fst (logrus_ParseLevel (Level ?c)) else logrus_InfoLevel)"
    and g: "snd (logrus_ParseLevel (Level ?c)) \<noteq> None \<longrightarrow> GetLevel w' = Inr InfoLevel"
    and o: "Out_of w' baseLogger
             = MultiWriter [Stdout, Lumberjack
                 \<lparr>Filename = fname, MaxSize = 500, MaxBackups = 3, MaxAge = 28,
                  Compress = True, LocalTime = True\<rparr>]"
    and f: "file_EnsureDirRW ?d (file_Dir ?d (File ?c)) \<noteq> None
              \<or> (file_IsExist ?d (File ?c) \<and> \<not> file_IsFile ?d (File ?c))
              \<longrightarrow> fname = path_Join [''./'', random_String (random_draw ?d) 8 Lowercase @ ''.log'']
                  \<and> (\<exists>name. fname = name @ ''.log'' \<and> length name = 8
                        \<and> set name \<subseteq> set Lowercase \<and> CHR ''/'' \<notin> set fname)"
    by blast
  from f e have "fname = path_Join [''./'', random_String (random_draw ?d) 8 Lowercase @ ''.log'']"
    by blast
  then have fn: "fname = ''dkryfmta.log''" by (simp only: r j append.simps)
  from l p have l': "Level_of w' baseLogger = logrus_InfoLevel" by auto
  from g p have g': "GetLevel w' = Inr InfoLevel" by blast
  from initialised_package_init i g' l' o fn show ?thesis by blast
qed

subsection \<open>Levels and messages\<close>

text \<open>
  C6: the levels are the numbers 0 (Panic) to 6 (Trace). The conversions
  between the facade's \<open>Level\<close> and the engine's level in \<open>SetLevel\<close>,
  \<open>GetLevel\<close> and \<open>Init\<close> keep the number, the engine's comparison of a
  line's level with the configured one is the comparison of these numbers,
  and the seven level names resolve to them.
\<close>

theorem levels_are_numbered:
  "[PanicLevel, FatalLevel, ErrorLevel, WarnLevel, InfoLevel, DebugLevel, TraceLevel]
     = [0, 1, 2, 3, 4, 5, 6]
   \<and> map unat [PanicLevel, FatalLevel, ErrorLevel, WarnLevel, InfoLevel, DebugLevel, TraceLevel]
     = [0, 1, 2, 3, 4, 5, 6]
   \<and> map ucast [PanicLevel, FatalLevel, ErrorLevel, WarnLevel, InfoLevel, DebugLevel, TraceLevel]
     = [logrus_PanicLevel, logrus_FatalLevel, logrus_ErrorLevel, logrus_WarnLevel,
        logrus_InfoLevel, logrus_DebugLevel, logrus_TraceLevel]
   \<and> map ucast [logrus_PanicLevel, logrus_FatalLevel, logrus_ErrorLevel, logrus_WarnLevel,
                 logrus_InfoLevel, logrus_DebugLevel, logrus_TraceLevel]
     = [PanicLevel, FatalLevel, ErrorLevel, WarnLevel, InfoLevel, DebugLevel, TraceLevel]
   \<and> map logrus_ParseLevel
         [''panic'', ''fatal'', ''error'', ''warn'', ''info'', ''debug'', ''trace'']
     = map (\<lambda>level. (ucast level, None))
         [PanicLevel, FatalLevel, ErrorLevel, WarnLevel, InfoLevel, DebugLevel, TraceLevel]
   \<and> (\<forall>(a :: Level) (b :: Level). ((ucast a :: logrus_Level) \<le> ucast b) = (unat a \<le> unat b))
   \<and> (\<forall>a :: Level. unat (ucast a :: logrus_Level) = unat a
                     \<and> (ucast (ucast a :: logrus_Level) :: Level) = a)"
proof -
  have 1: "[PanicLevel, FatalLevel, ErrorLevel, WarnLevel, InfoLevel, DebugLevel, TraceLevel]
     = [0, 1, 2, 3, 4, 5, 6]"
    by (simp add: PanicLevel_def FatalLevel_def ErrorLevel_def WarnLevel_def InfoLevel_def
          DebugLevel_def TraceLevel_def)
  have 2: "[logrus_PanicLevel, logrus_FatalLevel, logrus_ErrorLevel, logrus_WarnLevel,
        logrus_InfoLevel, logrus_DebugLevel, logrus_TraceLevel] = [0, 1, 2, 3, 4, 5, 6]"
    by (simp add: logrus_PanicLevel_def logrus_FatalLevel_def logrus_ErrorLevel_def
          logrus_WarnLevel_def logrus_InfoLevel_def logrus_DebugLevel_def logrus_TraceLevel_def)
  have 3: "map unat [0, 1, 2, 3, 4, 5, 6 :: Level] = [0, 1, 2, 3, 4, 5, 6]" by simp
  have 4: "map ucast [0, 1, 2, 3, 4, 5, 6 :: Level] = [0, 1, 2, 3, 4, 5, 6 :: logrus_Level]"
    by simp
  have 5: "map ucast [0, 1, 2, 3, 4, 5, 6 :: logrus_Level] = [0, 1, 2, 3, 4, 5, 6 :: Level]"
    by simp
  have 6: "map logrus_ParseLevel
         [''panic'', ''fatal'', ''error'', ''warn'', ''info'', ''debug'', ''trace'']
     = map (\<lambda>level. (ucast level, None)) [0, 1, 2, 3, 4, 5, 6 :: Level]"
    using 2 by (simp add: logrus_ParseLevel_def to_lower_def)
  have 7: "\<forall>(a :: Level) (b :: Level). ((ucast a :: logrus_Level) \<le> ucast b) = (unat a \<le> unat b)"
    by (simp add: ucast_Level_le unat_ucast_Level)
  have 8: "\<forall>a :: Level. unat (ucast a :: logrus_Level) = unat a
                     \<and> (ucast (ucast a :: logrus_Level) :: Level) = a"
    by (simp add: unat_ucast_Level ucast_Level_id)
  show ?thesis
    unfolding 1 2 using 3 4 5 6 7 8 by blast
qed

lemma doPrint_pair:
  "fmt_Sprint (a # b # rest)
   = printArg_v a @ (if isString a \<or> isString b then [] else '' '') @ fmt_Sprint (b # rest)"
  by (simp add: fmt_Sprint_def)

lemma doPrintln_not_empty: "doPrintln first a \<noteq> []"
  by (induction a arbitrary: first) simp_all

lemma doPrintln_pair:
  "butlast (fmt_Sprintln (a # b # rest))
   = printArg_v a @ '' '' @ butlast (fmt_Sprintln (b # rest))"
  by (simp add: fmt_Sprintln_def butlast_append doPrintln_not_empty)

lemma messages_package_init:
  assumes "Entry_dispatch c = (level, p, ctl)" and "payload_msg p = Inr msg"
    and "level \<le> logrus_InfoLevel"
  shows "messages (logger_call baseLogger c stk package_init) = [msg]"
  using logger_call_eq [OF valid_package_init assms(1,2), of stk] assms(3)
  by (simp add: Level_of_package_init messages_def written_package_init)

text \<open>
  C7, as stated, fails: \<open>Info("count=", 3)\<close> logs the message \<open>count=3\<close>,
  not \<open>count= 3\<close>, and this is the message of \<open>Infof("count=%d", 3)\<close>.
\<close>

theorem Info_joins_with_space_counterexample:
  "messages (logger_call baseLogger (Info [VString ''count='', VInt 3])
               [(''/home/app/cmd/main.go'', 42)] package_init) = [''count=3'']
   \<and> messages (logger_call baseLogger (Info [VString ''count='', VInt 3])
               [(''/home/app/cmd/main.go'', 42)] package_init) \<noteq> [''count= 3'']
   \<and> messages (logger_call baseLogger (Infof ''count=%d'' [VInt 3])
               [(''/home/app/cmd/main.go'', 42)] package_init)
     = messages (logger_call baseLogger (Info [VString ''count='', VInt 3])
               [(''/home/app/cmd/main.go'', 42)] package_init)"
proof -
  have three: "itoa 3 = ''3''" by code_simp
  have a: "payload_msg (Args [VString ''count='', VInt 3]) = Inr ''count=3''"
    by (simp add: fmt_Sprint_def three)
  have b: "payload_msg (Format ''count=%d'' [VInt 3]) = Inr ''count=3''"
    by (simp add: prepend_def three)
  have "messages (logger_call baseLogger (Info [VString ''count='', VInt 3])
               [(''/home/app/cmd/main.go'', 42)] package_init) = [''count=3'']"
    by (rule messages_package_init [OF _ a], simp, simp)
  moreover have "messages (logger_call baseLogger (Infof ''count=%d'' [VInt 3])
               [(''/home/app/cmd/main.go'', 42)] package_init) = [''count=3'']"
    by (rule messages_package_init [OF _ b], simp, simp)
  ultimately show ?thesis by simp
qed

text \<open>
  C7, amended: the concatenation-style method of each severity puts its
  arguments in their default text one after the other, with a single space
  between two neighbours only when neither of them is a string. So
  \<open>Info("count=", 3)\<close> and \<open>Infof("count=%d", 3)\<close> both log \<open>count=3\<close>, while
  \<open>Info(1, 2)\<close> logs \<open>1 2\<close>; it is the line style that puts a space between
  all neighbours: \<open>Infoln("count=", 3)\<close> logs \<open>count= 3\<close>.
\<close>

theorem concatenation_spaces_non_strings_only:
  "map (\<lambda>c. fst (snd (Entry_dispatch c)))
       [Trace args, Debug args, Print args, Info args, Warn args, Error args, Fatal args,
        Panic args]
     = replicate 8 (Args args)
   \<and> payload_msg (Args []) = Inr []
   \<and> payload_msg (Args [a]) = Inr (printArg_v a)
   \<and> payload_msg (Args (a # b # rest))
       = prepend (printArg_v a @ (if isString a \<or> isString b then [] else '' ''))
           (payload_msg (Args (b # rest)))
   \<and> payload_msg (ArgsLn (a # b # rest))
       = prepend (printArg_v a @ '' '') (payload_msg (ArgsLn (b # rest)))
   \<and> messages (logger_call baseLogger (Info [VString ''count='', VInt 3])
                [(''/home/app/cmd/main.go'', 42)] package_init) = [''count=3'']
   \<and> messages (logger_call baseLogger (Infof ''count=%d'' [VInt 3])
                [(''/home/app/cmd/main.go'', 42)] package_init) = [''count=3'']
   \<and> messages (logger_call baseLogger (Info [VInt 1, VInt 2])
                [(''/home/app/cmd/main.go'', 42)] package_init) = [''1 2'']
   \<and> messages (logger_call baseLogger (Infoln [VString ''count='', VInt 3])
                [(''/home/app/cmd/main.go'', 42)] package_init) = [''count= 3'']"
proof -
  have n: "itoa 1 = ''1''" "itoa 2 = ''2''" "itoa 3 = ''3''" by code_simp+
  have d: "map (\<lambda>c. fst (snd (Entry_dispatch c)))
       [Trace args, Debug args, Print args, Info args, Warn args, Error args, Fatal args,
        Panic args] = replicate 8 (Args args)"
    by (simp add: numeral_eq_Suc)
  have p0: "payload_msg (Args []) = Inr []" by (simp add: fmt_Sprint_def)
  have p1: "payload_msg (Args [a]) = Inr (printArg_v a)" by (simp add: fmt_Sprint_def)
  have p2: "payload_msg (Args (a # b # rest))
       = prepend (printArg_v a @ (if isString a \<or> isString b then [] else '' ''))
           (payload_msg (Args (b # rest)))"
    by (simp add: prepend_def doPrint_pair)
  have p3: "payload_msg (ArgsLn (a # b # rest))
       = prepend (printArg_v a @ '' '') (payload_msg (ArgsLn (b # rest)))"
    using doPrintln_pair [of a b rest] by (simp add: prepend_def)
  have a: "payload_msg (Args [VString ''count='', VInt 3]) = Inr ''count=3''"
    by (simp add: fmt_Sprint_def n)
  have b: "payload_msg (Format ''count=%d'' [VInt 3]) = Inr ''count=3''"
    by (simp add: prepend_def n)
  have c: "payload_msg (Args [VInt 1, VInt 2]) = Inr ''1 2''"
    by (simp add: fmt_Sprint_def n)
  have e: "payload_msg (ArgsLn [VString ''count='', VInt 3]) = Inr ''count= 3''"
    by (simp add: fmt_Sprintln_def n)
  have ma: "messages (logger_call baseLogger (Info [VString ''count='', VInt 3])
                [(''/home/app/cmd/main.go'', 42)] package_init) = [''count=3'']"
    by (rule messages_package_init [OF _ a], simp, simp)
  have mb: "messages (logger_call baseLogger (Infof ''count=%d'' [VInt 3])
                [(''/home/app/cmd/main.go'', 42)] package_init) = [''count=3'']"
    by (rule messages_package_init [OF _ b], simp, simp)
  have mc: "messages (logger_call baseLogger (Info [VInt 1, VInt 2])
                [(''/home/app/cmd/main.go'', 42)] package_init) = [''1 2'']"
    by (rule messages_package_init [OF _ c], simp, simp)
  have me: "messages (logger_call baseLogger (Infoln [VString ''count='', VInt 3])
                [(''/home/app/cmd/main.go'', 42)] package_init) = [''count= 3'']"
    by (rule messages_package_init [OF _ e], simp, simp)
  from d p0 p1 p2 p3 ma mb mc me show ?thesis by blast
qed

end
